theory Spec2Isabelle
  imports Complex_Main
begin

section \<open>JavaScript values used by the library\<close>

text \<open>
  A value of the TypeScript type \<open>number\<close>. Map keys and \<open>===\<close> do not tell the two
  zeros apart, so one zero stands for both. A finite double is a rational; the model
  keeps the rational itself.
\<close>

datatype number = NaN | PosInfinity | NegInfinity | Finite rat

text \<open>The argument type \<open>unknown\<close> of the converters, with what \<open>typeof\<close> tells apart.\<close>

datatype unknown =
    JUndefined | JNull | JBoolean bool | JNumber number | JString string
  | JObject | JFunction | JSymbol | JBigInt

fun typeof :: "unknown \<Rightarrow> string" where
  "typeof JUndefined = ''undefined''"
| "typeof JNull = ''object''"
| "typeof (JBoolean b) = ''boolean''"
| "typeof (JNumber n) = ''number''"
| "typeof (JString s) = ''string''"
| "typeof JObject = ''object''"
| "typeof JFunction = ''function''"
| "typeof JSymbol = ''symbol''"
| "typeof JBigInt = ''bigint''"

text \<open>
  A \<open>string\<close> is a list of code units; a \<open>char\<close> stands for a code unit below 256.
  The white space of ECMAScript (the class \<open>\s\<close> of a regular expression and the
  \<open>StrWhiteSpaceChar\<close> of \<open>Number\<close>) in that range: TAB, LF, VT, FF, CR, SP, NBSP.
\<close>

definition isWhiteSpace :: "char \<Rightarrow> bool" where
  "isWhiteSpace c \<longleftrightarrow> (of_char c :: nat) \<in> {9, 10, 11, 12, 13, 32, 160}"

definition isDecimalDigit :: "char \<Rightarrow> bool" where
  "isDecimalDigit c \<longleftrightarrow> 48 \<le> (of_char c :: nat) \<and> (of_char c :: nat) \<le> 57"

definition digitsValue :: "string \<Rightarrow> nat" where
  "digitsValue s = foldl (\<lambda>acc c. 10 * acc + (of_char c - 48)) 0 s"

fun decimal :: "nat \<Rightarrow> string" where
  "decimal n =
     (if n < 10 then [''0123456789'' ! n]
      else decimal (n div 10) @ [''0123456789'' ! (n mod 10)])"

declare decimal.simps [simp del]

text \<open>
  The two built-in conversions the service calls, \<open>Number(string)\<close> and
  \<open>String(number)\<close>. ECMAScript fixes them on every input; the model writes out the
  part it needs exactly and takes the rest from the runtime, as two functions every
  theorem quantifies over:
  \<^item> \<open>Number(s)\<close> is \<open>+0\<close> when \<open>s\<close> is empty or only white space, and the integer
    written when \<open>s\<close> is one to fifteen decimal digits (below \<open>2^53\<close>, so exact);
  \<^item> \<open>String(n)\<close> is the decimal numeral of \<open>n\<close> when \<open>n\<close> is an integer with
    \<open>0 \<le> n < 2^53\<close>.
\<close>

record runtime =
  stringToNumber :: "string \<Rightarrow> number"
  numberToString :: "number \<Rightarrow> string"

definition js_Number :: "runtime \<Rightarrow> string \<Rightarrow> number" where
  "js_Number rt s =
     (if list_all isWhiteSpace s then Finite 0
      else if list_all isDecimalDigit s \<and> length s \<le> 15 then Finite (of_nat (digitsValue s))
      else stringToNumber rt s)"

definition js_String :: "runtime \<Rightarrow> number \<Rightarrow> string" where
  "js_String rt n =
     (case n of
        Finite q \<Rightarrow>
          if 0 \<le> q \<and> q = of_int \<lfloor>q\<rfloor> \<and> q < 2 ^ 53 then decimal (nat \<lfloor>q\<rfloor>)
          else numberToString rt n
      | _ \<Rightarrow> numberToString rt n)"

text \<open>
  \<open>a || b\<close> on an optional string: \<open>a\<close> when it is truthy (defined and not empty),
  \<open>b\<close> otherwise. \<open>None\<close> is \<open>undefined\<close>.
\<close>

definition logicalOr :: "string option \<Rightarrow> string \<Rightarrow> string" where
  "logicalOr a b = (case a of None \<Rightarrow> b | Some s \<Rightarrow> if s = [] then b else s)"

text \<open>
  \<open>a?.id !== b\<close> on numbers: \<open>undefined\<close> differs from every number, and \<open>NaN\<close>
  differs from itself.
\<close>

definition strictNotEqual :: "number option \<Rightarrow> number \<Rightarrow> bool" where
  "strictNotEqual a b = (case a of None \<Rightarrow> True | Some x \<Rightarrow> x = NaN \<or> x \<noteq> b)"

text \<open>\<open>a < b\<close> on numbers: false as soon as one side is \<open>NaN\<close>.\<close>

fun number_less :: "number \<Rightarrow> number \<Rightarrow> bool" where
  "number_less (Finite x) (Finite y) = (x < y)"
| "number_less (Finite x) PosInfinity = True"
| "number_less NegInfinity (Finite y) = True"
| "number_less NegInfinity PosInfinity = True"
| "number_less a b = False"

section \<open>types/go-like.ts\<close>

subsection \<open>IResult and its two factories\<close>

text \<open>
  \<open>interface IResult<T> { success: boolean; data?: T; error?: string }\<close>.
  Reading an optional field gives \<open>undefined\<close> when the field is missing and when it
  holds \<open>undefined\<close>; the code never tells the two apart, and \<open>None\<close> stands for both.
  The type parameter \<open>'a\<close> is the defined values of \<open>T\<close>, so that a value of type
  \<open>T\<close> that may be \<open>undefined\<close> is an \<open>'a option\<close>.
\<close>

record 'a IResult =
  success :: bool
  data :: "'a option"
  error :: "string option"

definition createSuccess :: "'a option \<Rightarrow> 'a IResult" where
  "createSuccess d = \<lparr>success = True, data = d, error = None\<rparr>"

definition createError :: "string \<Rightarrow> 'a IResult" where
  "createError e = \<lparr>success = False, data = None, error = Some e\<rparr>"

subsection \<open>TypeConverter.toNumber\<close>

definition toNumber :: "runtime \<Rightarrow> unknown \<Rightarrow> number IResult" where
  "toNumber rt v =
     (case v of
        JNumber n \<Rightarrow> createSuccess (Some n)
      | JString s \<Rightarrow>
          (let parsed = js_Number rt s in
           if parsed = NaN
           then createError (''Cannot convert '' @ [CHR 0x22] @ s @ [CHR 0x22] @ '' to number'')
           else createSuccess (Some parsed))
      | _ \<Rightarrow> createError (''Cannot convert '' @ typeof v @ '' to number''))"

subsection \<open>GoLikeValidator\<close>

definition isNotUndefined :: "'a option \<Rightarrow> bool" where
  "isNotUndefined v \<longleftrightarrow> v \<noteq> None"

definition isEmpty :: "string \<Rightarrow> bool" where
  "isEmpty v \<longleftrightarrow> length v = 0"

definition isNotEmpty :: "string \<Rightarrow> bool" where
  "isNotEmpty v \<longleftrightarrow> length v > 0"

subsection \<open>ResultUtils\<close>

text \<open>
  A mapper is called on a defined payload only, and may itself return \<open>undefined\<close>.
\<close>

definition map_result :: "'a IResult \<Rightarrow> ('a \<Rightarrow> 'b option) \<Rightarrow> 'b IResult" where
  "map_result result mapper =
     (if \<not> success result then createError (logicalOr (error result) ''Unknown error'')
      else case data result of
             Some d \<Rightarrow> createSuccess (mapper d)
           | None \<Rightarrow> createError ''Data is undefined'')"

definition flatMap :: "'a IResult \<Rightarrow> ('a \<Rightarrow> 'b IResult) \<Rightarrow> 'b IResult" where
  "flatMap result mapper =
     (if \<not> success result then createError (logicalOr (error result) ''Unknown error'')
      else case data result of
             Some d \<Rightarrow> mapper d
           | None \<Rightarrow> createError ''Data is undefined'')"

definition unwrapOr :: "'a IResult \<Rightarrow> 'a option \<Rightarrow> 'a option" where
  "unwrapOr result defaultValue =
     (if success result \<and> isNotUndefined (data result) then data result else defaultValue)"

definition isError :: "'a IResult \<Rightarrow> bool" where
  "isError result \<longleftrightarrow> \<not> success result"

definition isSuccess :: "'a IResult \<Rightarrow> bool" where
  "isSuccess result \<longleftrightarrow> success result \<and> isNotUndefined (data result)"

subsection \<open>IUser and IUserCreateRequest\<close>

record IUser =
  id' :: number
  name :: string
  email :: string

record IUserCreateRequest =
  name :: string
  email :: string

text \<open>\<open>Partial<IUserCreateRequest>\<close>: each field may be missing (\<open>undefined\<close>).\<close>

record PartialRequest =
  name :: "string option"
  email :: "string option"

section \<open>example/user-service.ts\<close>

subsection \<open>The built-in Map, keyed by number\<close>

text \<open>
  A \<open>Map<number, V>\<close> as the list of its entries in insertion order. \<open>set\<close> on a
  key that is present replaces the value where it stands, on a new key it appends;
  \<open>values()\<close> lists the values in insertion order.
\<close>

type_synonym 'v Map = "(number \<times> 'v) list"

definition Map_get :: "'v Map \<Rightarrow> number \<Rightarrow> 'v option" where
  "Map_get m k = map_of m k"

definition Map_has :: "'v Map \<Rightarrow> number \<Rightarrow> bool" where
  "Map_has m k \<longleftrightarrow> map_of m k \<noteq> None"

fun Map_set :: "'v Map \<Rightarrow> number \<Rightarrow> 'v \<Rightarrow> 'v Map" where
  "Map_set [] k v = [(k, v)]"
| "Map_set ((k', v') # m) k v =
     (if k' = k then (k, v) # m else (k', v') # Map_set m k v)"

definition Map_delete :: "'v Map \<Rightarrow> number \<Rightarrow> 'v Map" where
  "Map_delete m k = filter (\<lambda>p. fst p \<noteq> k) m"

definition Map_values :: "'v Map \<Rightarrow> 'v list" where
  "Map_values m = map snd m"

subsection \<open>UserService\<close>

text \<open>
  The two private fields. The counter is a double that holds an integer; it is a
  \<open>nat\<close> here, and \<open>Finite (of_nat n)\<close> is the number it stands for.
\<close>

record UserService =
  users :: "IUser Map"
  nextId :: nat

definition newUserService :: UserService where
  "newUserService = \<lparr>users = [], nextId = 1\<rparr>"

text \<open>
  \<open>this.nextId++\<close> leaves \<open>nextId + 1\<close> in the counter, added as doubles. Below
  \<open>2^53\<close> the sum is exact. At \<open>2^53\<close> the sum \<open>2^53 + 1\<close> is no double: it lies
  halfway between \<open>2^53\<close> and \<open>2^53 + 2\<close> and is rounded to the even one, \<open>2^53\<close>,
  so the counter stays where it is. The counter starts at 1 and nothing else writes
  it, so it never leaves the range from 1 to \<open>2^53\<close> (\<open>store_inv\<close> below, which every
  reached service satisfies); \<open>postIncrement\<close> is read on that range only.
\<close>

definition maxCounter :: nat where
  "maxCounter = 2 ^ 53"

definition postIncrement :: "nat \<Rightarrow> nat" where
  "postIncrement n = (if n < maxCounter then n + 1 else n)"

definition validateName :: "string \<Rightarrow> bool IResult" where
  "validateName n =
     (if \<not> isNotEmpty n then createError ''Name cannot be empty''
      else if length n > 50 then createError ''Name cannot exceed 50 characters''
      else createSuccess (Some True))"

text \<open>
  \<open>/^[^\s@]+@[^\s@]+\.[^\s@]+$/.test(email)\<close>. \<open>emailChar\<close> is the class \<open>[^\s@]\<close>.
  The first \<open>@\<close> ends the first group, since the class excludes it; what follows must
  be of the class throughout, with a dot that is neither its first nor its last
  character.
\<close>

definition emailChar :: "char \<Rightarrow> bool" where
  "emailChar c \<longleftrightarrow> \<not> isWhiteSpace c \<and> c \<noteq> CHR ''@''"

definition emailRegex_test :: "string \<Rightarrow> bool" where
  "emailRegex_test s =
     (takeWhile emailChar s \<noteq> [] \<and>
      (case dropWhile emailChar s of
         [] \<Rightarrow> False
       | c # t \<Rightarrow> c = CHR ''@'' \<and> list_all emailChar t \<and> CHR ''.'' \<in> set (butlast (tl t))))"

definition validateEmail :: "string \<Rightarrow> bool IResult" where
  "validateEmail e =
     (if \<not> isNotEmpty e then createError ''Email cannot be empty''
      else if \<not> emailRegex_test e then createError ''Invalid email format''
      else createSuccess (Some True))"

definition findUserByEmail :: "UserService \<Rightarrow> string \<Rightarrow> IUser IResult" where
  "findUserByEmail svc e =
     (case find (\<lambda>u. IUser.email u = e) (Map_values (users svc)) of
        None \<Rightarrow> createError ''User not found''
      | Some user \<Rightarrow> createSuccess (Some user))"

text \<open>
  A method that mutates the service returns the service it leaves behind beside its
  result.
\<close>

definition createUser :: "UserService \<Rightarrow> IUserCreateRequest \<Rightarrow> IUser IResult \<times> UserService" where
  "createUser svc request =
     (let nameValidation = validateName (IUserCreateRequest.name request) in
      if \<not> success nameValidation
      then (createError (logicalOr (error nameValidation) ''Name validation failed''), svc)
      else
        let emailValidation = validateEmail (IUserCreateRequest.email request) in
        if \<not> success emailValidation
        then (createError (logicalOr (error emailValidation) ''Email validation failed''), svc)
        else
          let existingUserCheck = findUserByEmail svc (IUserCreateRequest.email request) in
          if success existingUserCheck
          then (createError ''User with this email already exists'', svc)
          else
            let user = \<lparr>id' = Finite (of_nat (nextId svc)),
                        IUser.name = IUserCreateRequest.name request,
                        IUser.email = IUserCreateRequest.email request\<rparr>
            in (createSuccess (Some user),
                svc\<lparr>users := Map_set (users svc) (id' user) user,
                    nextId := postIncrement (nextId svc)\<rparr>))"

definition getUserById :: "runtime \<Rightarrow> UserService \<Rightarrow> string \<Rightarrow> IUser IResult" where
  "getUserById rt svc idText =
     (let idConversionResult = toNumber rt (JString idText) in
      if \<not> success idConversionResult
      then createError (''Invalid ID format: '' @ logicalOr (error idConversionResult) ''unknown error'')
      else
        case data idConversionResult of
          None \<Rightarrow> createError ''ID conversion resulted in undefined''
        | Some numericId \<Rightarrow>
            (case Map_get (users svc) numericId of
               None \<Rightarrow> createError (''User not found with ID: '' @ js_String rt numericId)
             | Some user \<Rightarrow> createSuccess (Some user)))"

definition getAllUsers :: "UserService \<Rightarrow> IUser list IResult" where
  "getAllUsers svc = createSuccess (Some (Map_values (users svc)))"

text \<open>
  \<open>updateUser\<close> returns early from inside its two \<open>if\<close> blocks; each block is the inner
  \<open>case\<close> below, whose value is the result returned early, if any.
\<close>

definition updateUser ::
  "runtime \<Rightarrow> UserService \<Rightarrow> string \<Rightarrow> PartialRequest \<Rightarrow> IUser IResult \<times> UserService" where
  "updateUser rt svc idText updates =
     (let getUserResult = getUserById rt svc idText in
      if \<not> success getUserResult
      then (createError (logicalOr (error getUserResult) ''User not found''), svc)
      else
        case data getUserResult of
          None \<Rightarrow> (createError ''Retrieved user is undefined'', svc)
        | Some existingUser \<Rightarrow>
            (case (case PartialRequest.name updates of
                     None \<Rightarrow> None
                   | Some n \<Rightarrow>
                       (let nameValidation = validateName n in
                        if \<not> success nameValidation
                        then Some (createError (logicalOr (error nameValidation) ''Name validation failed''))
                        else None)) of
               Some early \<Rightarrow> (early, svc)
             | None \<Rightarrow>
                 (case (case PartialRequest.email updates of
                          None \<Rightarrow> None
                        | Some e \<Rightarrow>
                            (let emailValidation = validateEmail e in
                             if \<not> success emailValidation
                             then Some (createError (logicalOr (error emailValidation) ''Email validation failed''))
                             else
                               let existingEmailCheck = findUserByEmail svc e in
                               if success existingEmailCheck \<and>
                                  strictNotEqual (map_option id' (data existingEmailCheck)) (id' existingUser)
                               then Some (createError ''Email is already in use by another user'')
                               else None)) of
                    Some early \<Rightarrow> (early, svc)
                  | None \<Rightarrow>
                      (let updatedUser =
                             \<lparr>id' = id' existingUser,
                              IUser.name = logicalOr (PartialRequest.name updates) (IUser.name existingUser),
                              IUser.email = logicalOr (PartialRequest.email updates) (IUser.email existingUser)\<rparr>
                       in (createSuccess (Some updatedUser),
                           svc\<lparr>users := Map_set (users svc) (id' updatedUser) updatedUser\<rparr>)))))"

definition deleteUser :: "runtime \<Rightarrow> UserService \<Rightarrow> string \<Rightarrow> bool IResult \<times> UserService" where
  "deleteUser rt svc idText =
     (let idConversionResult = toNumber rt (JString idText) in
      if \<not> success idConversionResult
      then (createError (''Invalid ID format: '' @ logicalOr (error idConversionResult) ''unknown error''), svc)
      else
        case data idConversionResult of
          None \<Rightarrow> (createError ''ID conversion resulted in undefined'', svc)
        | Some numericId \<Rightarrow>
            (let exists = Map_has (users svc) numericId in
             if \<not> exists
             then (createError (''User not found with ID: '' @ js_String rt numericId), svc)
             else (createSuccess (Some True), svc\<lparr>users := Map_delete (users svc) numericId\<rparr>)))"

subsection \<open>Sequences of calls on one service\<close>

datatype operation =
    CreateUser IUserCreateRequest
  | GetUserById string
  | GetAllUsers
  | UpdateUser string PartialRequest
  | DeleteUser string

datatype response =
    UserResponse "IUser IResult"
  | UsersResponse "IUser list IResult"
  | FlagResponse "bool IResult"

fun succeeded :: "response \<Rightarrow> bool" where
  "succeeded (UserResponse r) = success r"
| "succeeded (UsersResponse r) = success r"
| "succeeded (FlagResponse r) = success r"

fun call :: "runtime \<Rightarrow> UserService \<Rightarrow> operation \<Rightarrow> response \<times> UserService" where
  "call rt svc (CreateUser request) = (let (r, svc') = createUser svc request in (UserResponse r, svc'))"
| "call rt svc (GetUserById idText) = (UserResponse (getUserById rt svc idText), svc)"
| "call rt svc GetAllUsers = (UsersResponse (getAllUsers svc), svc)"
| "call rt svc (UpdateUser idText updates) =
     (let (r, svc') = updateUser rt svc idText updates in (UserResponse r, svc'))"
| "call rt svc (DeleteUser idText) = (let (r, svc') = deleteUser rt svc idText in (FlagResponse r, svc'))"

text \<open>The service after a sequence of calls, and what each call returned.\<close>

fun exec :: "runtime \<Rightarrow> UserService \<Rightarrow> operation list \<Rightarrow> UserService" where
  "exec rt svc [] = svc"
| "exec rt svc (c # cs) = exec rt (snd (call rt svc c)) cs"

fun responses :: "runtime \<Rightarrow> UserService \<Rightarrow> operation list \<Rightarrow> (operation \<times> response) list" where
  "responses rt svc [] = []"
| "responses rt svc (c # cs) = (c, fst (call rt svc c)) # responses rt (snd (call rt svc c)) cs"

text \<open>The ids of the records that the successful \<open>createUser\<close> calls returned, in call order.\<close>

fun createdIds :: "(operation \<times> response) list \<Rightarrow> number list" where
  "createdIds [] = []"
| "createdIds ((CreateUser request, UserResponse r) # rest) =
     (case (success r, data r) of
        (True, Some u) \<Rightarrow> id' u # createdIds rest
      | _ \<Rightarrow> createdIds rest)"
| "createdIds (other # rest) = createdIds rest"

subsection \<open>The invariant of a service\<close>

text \<open>
  What every service reached from \<open>new UserService()\<close> satisfies: the keys of the map
  are distinct, each record is stored under its own id, an id is one of the numbers
  \<open>1, \<dots>, nextId - 1\<close> or is \<open>2^53\<close>, the counter is between 1 and \<open>2^53\<close>, and no
  two records share an email.
\<close>

definition store_inv :: "UserService \<Rightarrow> bool" where
  "store_inv svc \<longleftrightarrow>
     distinct (map fst (users svc)) \<and>
     (\<forall>p \<in> set (users svc). id' (snd p) = fst p \<and>
        (\<exists>n. fst p = Finite (of_nat n) \<and> 1 \<le> n \<and> (n < nextId svc \<or> n = maxCounter))) \<and>
     distinct (map (\<lambda>p. IUser.email (snd p)) (users svc)) \<and>
     1 \<le> nextId svc \<and> nextId svc \<le> maxCounter"

subsection \<open>Sample data\<close>

text \<open>
  A runtime whose \<open>Number\<close> is \<open>NaN\<close> outside the part written out above, the two
  requests of the test suite, and the service after \<open>createUser(john)\<close>.
\<close>

definition sample_runtime :: runtime where
  "sample_runtime = \<lparr>stringToNumber = (\<lambda>s. NaN), numberToString = (\<lambda>n. ''?'')\<rparr>"

definition john :: IUserCreateRequest where
  "john = \<lparr>IUserCreateRequest.name = ''John Doe'', IUserCreateRequest.email = ''john@example.com''\<rparr>"

definition jane :: IUserCreateRequest where
  "jane = \<lparr>IUserCreateRequest.name = ''Jane Doe'', IUserCreateRequest.email = ''jane@example.com''\<rparr>"

definition johnUser :: IUser where
  "johnUser = \<lparr>id' = Finite 1, IUser.name = ''John Doe'', IUser.email = ''john@example.com''\<rparr>"

definition oneUser :: UserService where
  "oneUser = \<lparr>users = [(Finite 1, johnUser)], nextId = 2\<rparr>"

definition janeUser :: IUser where
  "janeUser = \<lparr>id' = Finite 2, IUser.name = ''Jane Doe'', IUser.email = ''jane@example.com''\<rparr>"

text \<open>
  A runtime whose \<open>Number\<close> also reads a text of decimal digits of any length, as
  long as the integer written is at most \<open>2^53\<close> (every such integer is a double, so
  this is what \<open>Number\<close> returns), and is \<open>NaN\<close> elsewhere. \<open>churn k\<close> is the sequence of
  \<open>2 * k\<close> calls \<open>createUser(john); deleteUser("1"); createUser(john); deleteUser("2");\<close>
  and so on up to \<open>deleteUser(String(k))\<close>: it keeps at most one record in the store.
\<close>

definition digits_runtime :: runtime where
  "digits_runtime =
     \<lparr>stringToNumber =
        (\<lambda>s. if s \<noteq> [] \<and> list_all isDecimalDigit s \<and> digitsValue s \<le> maxCounter
             then Finite (of_nat (digitsValue s)) else NaN),
      numberToString = (\<lambda>n. ''?'')\<rparr>"

fun churn :: "nat \<Rightarrow> operation list" where
  "churn 0 = []"
| "churn (Suc k) = churn k @ [CreateUser john, DeleteUser (decimal (Suc k))]"

section \<open>The Result combinators\<close>

text \<open>
  C8, as the code has it. \<open>unwrapOr(ok(x), d)\<close> is \<open>x\<close> for every \<open>x\<close> other than
  \<open>undefined\<close>; a success whose payload is \<open>undefined\<close> unwraps to the default \<open>d\<close>,
  because \<open>unwrapOr\<close> tests the payload with \<open>isNotUndefined\<close>; and
  \<open>unwrapOr(err(m), d)\<close> is \<open>d\<close> for every message \<open>m\<close> and every \<open>d\<close>.
\<close>

theorem unwrapOr_round_trip:
  "unwrapOr (createSuccess (Some x)) d = Some x \<and>
   unwrapOr (createSuccess None) d = d \<and>
   unwrapOr (createError m) d = d"
  by (simp add: unwrapOr_def createSuccess_def createError_def isNotUndefined_def)

text \<open>
  C8 as stated fails at \<open>x = undefined\<close>, \<open>d = 0\<close>: \<open>unwrapOr(ok(undefined), 0)\<close> is
  \<open>0\<close>, not \<open>undefined\<close>.
\<close>

theorem unwrapOr_undefined_payload:
  "unwrapOr (createSuccess (None :: nat option)) (Some 0) = Some 0 \<and>
   unwrapOr (createSuccess (None :: nat option)) (Some 0) \<noteq> None"
  by (simp add: unwrapOr_def createSuccess_def isNotUndefined_def)

text \<open>
  C9, as the code has it. On a failed result \<open>map\<close> and \<open>flatMap\<close> return an Err with
  the original message when that message is present and not empty, and with the
  default \<open>Unknown error\<close> when the message is absent or is the empty string (the code
  picks the message with \<open>||\<close>).
\<close>

theorem err_propagation:
  "(\<not> success r \<and> error r = Some m \<and> m \<noteq> [] \<longrightarrow>
      map_result r f = createError m \<and> flatMap r g = createError m) \<and>
   (\<not> success r \<and> (error r = None \<or> error r = Some []) \<longrightarrow>
      map_result r f = createError ''Unknown error'' \<and>
      flatMap r g = createError ''Unknown error'')"
  by (auto simp add: map_result_def flatMap_def logicalOr_def)

theorem err_propagation_witness:
  "\<not> success (createError ''boom'' :: nat IResult) \<and>
   error (createError ''boom'' :: nat IResult) = Some ''boom'' \<and> ''boom'' \<noteq> [] \<and>
   map_result (createError ''boom'' :: nat IResult) (\<lambda>v. Some (Suc v)) = createError ''boom'' \<and>
   flatMap (createError ''boom'' :: nat IResult) (\<lambda>v. createSuccess (Some (Suc v))) = createError ''boom'' \<and>
   \<not> success \<lparr>success = False, data = (None :: nat option), error = None\<rparr> \<and>
   map_result \<lparr>success = False, data = (None :: nat option), error = None\<rparr> (\<lambda>v. Some (Suc v))
     = createError ''Unknown error'' \<and>
   flatMap \<lparr>success = False, data = (None :: nat option), error = None\<rparr> (\<lambda>v. createSuccess (Some (Suc v)))
     = createError ''Unknown error''"
  using err_propagation [of "createError ''boom'' :: nat IResult" "''boom''"
          "\<lambda>v. Some (Suc v)" "\<lambda>v. createSuccess (Some (Suc v))"]
        err_propagation [of "\<lparr>success = False, data = (None :: nat option), error = None\<rparr>" "''boom''"
          "\<lambda>v. Some (Suc v)" "\<lambda>v. createSuccess (Some (Suc v))"]
  by (simp add: createError_def)

text \<open>
  C9 as stated fails at \<open>err("")\<close>: the message is present (it is the empty string), and
  \<open>map\<close> and \<open>flatMap\<close> replace it by \<open>Unknown error\<close>.
\<close>

theorem err_propagation_empty_message:
  "error (createError [] :: nat IResult) = Some [] \<and>
   error (map_result (createError [] :: nat IResult) (\<lambda>v. Some v)) = Some ''Unknown error'' \<and>
   error (flatMap (createError [] :: nat IResult) (\<lambda>v. createSuccess (Some v))) = Some ''Unknown error''"
  by (simp add: map_result_def flatMap_def logicalOr_def createSuccess_def createError_def)

text \<open>
  C7, as the code has it. With \<open>ok = createSuccess\<close> and \<open>err = createError\<close>:
  \<^item> \<open>map(ok(x), id) == ok(x)\<close> and \<open>flatMap(ok(x), h) == h(x)\<close> for every \<open>x\<close> other than
    \<open>undefined\<close>;
  \<^item> \<open>map(map(r, f), g) == map(r, compose(g, f))\<close> for every result \<open>r\<close>, every \<open>g\<close> and
    every \<open>f\<close> that never returns \<open>undefined\<close> (here \<open>f\<close> returns a defined value by its
    type);
  \<^item> \<open>flatMap(r, ok) == r\<close> for \<open>r = ok(x)\<close> with \<open>x\<close> other than \<open>undefined\<close>, and for
    \<open>r = err(m)\<close> with \<open>m\<close> not empty.
\<close>

theorem functor_monad_laws:
  "map_result (createSuccess (Some x)) (\<lambda>v. Some v) = createSuccess (Some x) \<and>
   map_result (map_result r (\<lambda>v. Some (f v))) g = map_result r (\<lambda>v. g (f v)) \<and>
   flatMap (createSuccess (Some x)) h = h x \<and>
   flatMap (createSuccess (Some x)) (\<lambda>v. createSuccess (Some v)) = createSuccess (Some x) \<and>
   (m \<noteq> [] \<longrightarrow> flatMap (createError m) (\<lambda>v. createSuccess (Some v)) = createError m)"
  by (auto simp add: map_result_def flatMap_def logicalOr_def createSuccess_def createError_def
      split: option.splits)

theorem functor_monad_laws_witness:
  "map_result (createSuccess (Some (7::nat))) (\<lambda>v. Some v) = createSuccess (Some 7) \<and>
   map_result (map_result (createSuccess (Some (7::nat))) (\<lambda>v. Some (Suc v))) (\<lambda>v. Some (2 * v))
     = map_result (createSuccess (Some (7::nat))) (\<lambda>v. Some (2 * Suc v)) \<and>
   flatMap (createSuccess (Some (7::nat))) (\<lambda>v. createError ''no'' :: nat IResult) = createError ''no'' \<and>
   ''boom'' \<noteq> [] \<and>
   flatMap (createError ''boom'' :: nat IResult) (\<lambda>v. createSuccess (Some v)) = createError ''boom''"
proof -
  have ne: "''boom'' \<noteq> []"
    by simp
  with functor_monad_laws [of "7::nat" "createSuccess (Some (7::nat))" Suc "\<lambda>v. Some (2 * v)"
          "\<lambda>v. createError ''no'' :: nat IResult" "''boom''"]
  show ?thesis
    by blast
qed

text \<open>
  C7 as stated fails: \<open>flatMap(err(""), ok)\<close> is \<open>err("Unknown error")\<close>;
  \<open>map(ok(undefined), id)\<close> is \<open>err("Data is undefined")\<close>; with \<open>f\<close> the function that
  returns \<open>undefined\<close> and \<open>g\<close> the function that returns 1, \<open>map(map(ok(0), f), g)\<close> is
  \<open>err("Data is undefined")\<close> and \<open>map(ok(0), compose(g, f))\<close> is \<open>ok(1)\<close>; and with \<open>h\<close>
  the function that returns \<open>ok(1)\<close>, \<open>flatMap(ok(undefined), h)\<close> is
  \<open>err("Data is undefined")\<close>, not \<open>h(undefined)\<close>.
\<close>

theorem functor_monad_laws_fail:
  "flatMap (createError [] :: nat IResult) (\<lambda>v. createSuccess (Some v)) \<noteq> createError [] \<and>
   map_result (createSuccess (None :: nat option)) (\<lambda>v. Some v) \<noteq> createSuccess None \<and>
   map_result (map_result (createSuccess (Some (0::nat))) (\<lambda>v. (None :: nat option))) (\<lambda>y. Some (1::nat))
     \<noteq> map_result (createSuccess (Some (0::nat))) (\<lambda>v. Some (1::nat)) \<and>
   flatMap (createSuccess (None :: nat option)) (\<lambda>v. createSuccess (Some (1::nat)))
     \<noteq> createSuccess (Some (1::nat))"
  by (simp add: map_result_def flatMap_def logicalOr_def createSuccess_def createError_def)

section \<open>The store\<close>

subsection \<open>The map and the invariant\<close>

lemma Map_set_fresh: "k \<notin> fst ` set m \<Longrightarrow> Map_set m k v = m @ [(k, v)]"
  by (induction m) auto

lemma Map_set_present:
  "k \<in> fst ` set m \<Longrightarrow> distinct (map fst m) \<Longrightarrow>
   Map_set m k v = map (\<lambda>p. if fst p = k then (k, v) else p) m"
proof (induction m)
  case Nil
  then show ?case by simp
next
  case (Cons p m)
  show ?case
  proof (cases "fst p = k")
    case True
    with Cons.prems have "k \<notin> fst ` set m" by auto
    then have "map (\<lambda>p. if fst p = k then (k, v) else p) m = m"
      by (induction m) auto
    with True show ?thesis by (cases p) simp
  next
    case False
    with Cons show ?thesis by (cases p) auto
  qed
qed

lemma map_fst_replace: "map fst (map (\<lambda>p. if fst p = k then (k, v) else p) m) = map fst m"
  by (induction m) auto

lemma distinct_replace:
  "distinct (map f m) \<Longrightarrow> \<forall>p \<in> set m. fst p \<noteq> k \<longrightarrow> f p \<noteq> f (k, v) \<Longrightarrow>
   distinct (map fst m) \<Longrightarrow>
   distinct (map (\<lambda>p. f (if fst p = k then (k, v) else p)) m)"
proof (induction m)
  case Nil
  then show ?case by simp
next
  case (Cons p m)
  have IH: "distinct (map (\<lambda>p. f (if fst p = k then (k, v) else p)) m)"
    using Cons by simp
  have notin: "f (if fst p = k then (k, v) else p) \<noteq> f (if fst q = k then (k, v) else q)"
    if q: "q \<in> set m" for q
  proof (cases "fst p = k")
    case True
    from Cons.prems(3) have "fst p \<notin> fst ` set m" by simp
    with True q have "fst q \<noteq> k" by (auto simp add: image_iff)
    with True q Cons.prems(2) show ?thesis by auto
  next
    case False
    show ?thesis
    proof (cases "fst q = k")
      case True
      with False Cons.prems(2) show ?thesis by simp
    next
      case F: False
      from q Cons.prems(1) have "f p \<noteq> f q" by auto
      with False F show ?thesis by simp
    qed
  qed
  then have "f (if fst p = k then (k, v) else p)
      \<notin> (\<lambda>q. f (if fst q = k then (k, v) else q)) ` set m"
    by blast
  with IH show ?case by simp
qed

lemma store_inv_new: "store_inv newUserService"
  by (simp add: store_inv_def newUserService_def maxCounter_def)

lemma find_email_None:
  "find (\<lambda>u. IUser.email u = e) (Map_values m) = None \<longleftrightarrow> (\<forall>p \<in> set m. IUser.email (snd p) \<noteq> e)"
  by (auto simp add: find_None_iff Map_values_def)

lemma find_email_Some:
  "find (\<lambda>u. IUser.email u = e) (Map_values m) = Some w \<Longrightarrow> (\<exists>k. (k, w) \<in> set m) \<and> IUser.email w = e"
  by (induction m) (auto simp add: Map_values_def split: if_splits)

lemma toNumber_string_cases:
  "toNumber rt (JString s) = createError (''Cannot convert '' @ [CHR 0x22] @ s @ [CHR 0x22] @ '' to number'') \<or>
   (\<exists>n. n \<noteq> NaN \<and> n = js_Number rt s \<and> toNumber rt (JString s) = createSuccess (Some n))"
  by (simp add: toNumber_def Let_def)

lemma getUserById_success:
  assumes "success (getUserById rt svc i)"
  shows "\<exists>n u. toNumber rt (JString i) = createSuccess (Some n) \<and>
           Map_get (users svc) n = Some u \<and> getUserById rt svc i = createSuccess (Some u)"
  using assms toNumber_string_cases [of rt i]
  by (auto simp add: getUserById_def Let_def createError_def createSuccess_def split: option.splits)

lemma validateEmail_success: "success (validateEmail e) \<Longrightarrow> e \<noteq> [] \<and> emailRegex_test e"
  by (auto simp add: validateEmail_def isNotEmpty_def createError_def split: if_splits)

lemma validateName_success: "success (validateName n) \<Longrightarrow> n \<noteq> [] \<and> length n \<le> 50"
  by (auto simp add: validateName_def isNotEmpty_def createError_def split: if_splits)

lemma findUserByEmail_success:
  "success (findUserByEmail svc e) \<longleftrightarrow> (\<exists>p \<in> set (users svc). IUser.email (snd p) = e)"
  using find_email_None [of e "users svc"]
  by (auto simp add: findUserByEmail_def createError_def createSuccess_def split: option.splits)

lemma postIncrement_le: "n \<le> maxCounter \<Longrightarrow> n \<le> postIncrement n \<and> postIncrement n \<le> maxCounter"
  by (simp add: postIncrement_def)

lemma store_inv_createUser: "store_inv svc \<Longrightarrow> store_inv (snd (createUser svc request))"
proof -
  assume inv: "store_inv svc"
  let ?k = "Finite (of_nat (nextId svc))"
  let ?v = "\<lparr>id' = ?k, IUser.name = IUserCreateRequest.name request,
             IUser.email = IUserCreateRequest.email request\<rparr>"
  have dk: "distinct (map fst (users svc))"
    using inv by (simp add: store_inv_def)
  have de: "distinct (map (\<lambda>p. IUser.email (snd p)) (users svc))"
    using inv by (simp add: store_inv_def)
  have bounds: "1 \<le> nextId svc" "nextId svc \<le> maxCounter"
    using inv by (simp_all add: store_inv_def)
  have old: "id' (snd p) = fst p \<and>
      (\<exists>n. fst p = Finite (of_nat n) \<and> 1 \<le> n \<and> (n < postIncrement (nextId svc) \<or> n = maxCounter))"
    if "p \<in> set (users svc)" for p
  proof -
    from inv that obtain n where "id' (snd p) = fst p" "fst p = Finite (of_nat n)" "1 \<le> n"
      "n < nextId svc \<or> n = maxCounter"
      by (auto simp add: store_inv_def)
    moreover have "nextId svc \<le> postIncrement (nextId svc)"
      using bounds by (simp add: postIncrement_le)
    ultimately show ?thesis by auto
  qed
  have new: "\<exists>n. ?k = Finite (of_nat n) \<and> 1 \<le> n \<and> (n < postIncrement (nextId svc) \<or> n = maxCounter)"
    using bounds by (auto simp add: postIncrement_def)
  show ?thesis
  proof (cases "success (validateName (IUserCreateRequest.name request)) \<and>
                success (validateEmail (IUserCreateRequest.email request)) \<and>
                \<not> success (findUserByEmail svc (IUserCreateRequest.email request))")
    case False
    with inv show ?thesis by (auto simp add: createUser_def Let_def)
  next
    case True
    then have noemail: "\<forall>p \<in> set (users svc). IUser.email (snd p) \<noteq> IUserCreateRequest.email request"
      by (simp add: findUserByEmail_success)
    from True have eq: "snd (createUser svc request) =
      svc\<lparr>users := Map_set (users svc) ?k ?v, nextId := postIncrement (nextId svc)\<rparr>"
      by (simp add: createUser_def Let_def)
    have c4: "1 \<le> postIncrement (nextId svc) \<and> postIncrement (nextId svc) \<le> maxCounter"
      using bounds postIncrement_le [of "nextId svc"] by simp
    show ?thesis
    proof (cases "?k \<in> fst ` set (users svc)")
      case False
      then have m: "Map_set (users svc) ?k ?v = users svc @ [(?k, ?v)]"
        by (rule Map_set_fresh)
      have c1: "distinct (map fst (users svc @ [(?k, ?v)]))"
        using dk False by simp
      have c2: "\<forall>p \<in> set (users svc @ [(?k, ?v)]). id' (snd p) = fst p \<and>
          (\<exists>n. fst p = Finite (of_nat n) \<and> 1 \<le> n \<and> (n < postIncrement (nextId svc) \<or> n = maxCounter))"
        using old new by auto
      have c3: "distinct (map (\<lambda>p. IUser.email (snd p)) (users svc @ [(?k, ?v)]))"
        using de noemail by auto
      show ?thesis
        unfolding eq m store_inv_def using c1 c2 c3 c4 by simp
    next
      case present: True
      let ?m = "map (\<lambda>p. if fst p = ?k then (?k, ?v) else p) (users svc)"
      have m: "Map_set (users svc) ?k ?v = ?m"
        using present dk by (rule Map_set_present)
      have c1: "distinct (map fst ?m)"
        using dk by (simp only: map_fst_replace)
      have c2: "\<forall>p \<in> set ?m. id' (snd p) = fst p \<and>
          (\<exists>n. fst p = Finite (of_nat n) \<and> 1 \<le> n \<and> (n < postIncrement (nextId svc) \<or> n = maxCounter))"
      proof
        fix p assume "p \<in> set ?m"
        then have "p \<in> (\<lambda>q. if fst q = ?k then (?k, ?v) else q) ` set (users svc)"
          by simp
        then obtain q where q: "q \<in> set (users svc)"
          and p: "p = (if fst q = ?k then (?k, ?v) else q)" by blast
        show "id' (snd p) = fst p \<and>
          (\<exists>n. fst p = Finite (of_nat n) \<and> 1 \<le> n \<and> (n < postIncrement (nextId svc) \<or> n = maxCounter))"
        proof (cases "fst q = ?k")
          case True
          with p new show ?thesis by simp
        next
          case False
          with p old [OF q] show ?thesis by simp
        qed
      qed
      have "distinct (map (\<lambda>p. IUser.email (snd (if fst p = ?k then (?k, ?v) else p))) (users svc))"
        using de _ dk
      proof (rule distinct_replace)
        show "\<forall>p\<in>set (users svc). fst p \<noteq> ?k \<longrightarrow> IUser.email (snd p) \<noteq> IUser.email (snd (?k, ?v))"
          using noemail by simp
      qed
      then have c3: "distinct (map (\<lambda>p. IUser.email (snd p)) ?m)"
        by (simp add: comp_def)
      show ?thesis
        unfolding eq m store_inv_def using c1 c2 c3 c4 by simp
    qed
  qed
qed

lemma store_inv_deleteUser: "store_inv svc \<Longrightarrow> store_inv (snd (deleteUser rt svc i))"
  by (auto simp add: deleteUser_def Let_def store_inv_def Map_delete_def distinct_map_filter
      split: option.splits)

lemma updateUser_changes:
  assumes "success (fst (updateUser rt svc i upd)) \<or> snd (updateUser rt svc i upd) \<noteq> svc"
  shows "\<exists>n u. toNumber rt (JString i) = createSuccess (Some n) \<and> Map_get (users svc) n = Some u \<and>
           (case PartialRequest.email upd of
              None \<Rightarrow> True
            | Some e \<Rightarrow> e \<noteq> [] \<and> emailRegex_test e \<and>
                (case find (\<lambda>w. IUser.email w = e) (Map_values (users svc)) of
                   None \<Rightarrow> True
                 | Some w \<Rightarrow> id' w = id' u)) \<and>
           updateUser rt svc i upd =
             (createSuccess (Some \<lparr>id' = id' u,
                  IUser.name = logicalOr (PartialRequest.name upd) (IUser.name u),
                  IUser.email = logicalOr (PartialRequest.email upd) (IUser.email u)\<rparr>),
              svc\<lparr>users := Map_set (users svc) (id' u)
                  \<lparr>id' = id' u,
                   IUser.name = logicalOr (PartialRequest.name upd) (IUser.name u),
                   IUser.email = logicalOr (PartialRequest.email upd) (IUser.email u)\<rparr>\<rparr>)"
proof (cases "success (getUserById rt svc i)")
  case False
  with assms show ?thesis by (simp add: updateUser_def Let_def createError_def)
next
  case True
  then obtain n u where n: "toNumber rt (JString i) = createSuccess (Some n)"
    and u: "Map_get (users svc) n = Some u"
    and g: "getUserById rt svc i = createSuccess (Some u)"
    using getUserById_success by blast
  have sd: "success (getUserById rt svc i)" "data (getUserById rt svc i) = Some u"
    using g by (simp_all add: createSuccess_def)
  show ?thesis
  proof (cases "PartialRequest.email upd")
    case None
    with assms sd n u show ?thesis
      by (auto simp add: updateUser_def Let_def createError_def split: option.splits if_splits)
  next
    case (Some e)
    from assms sd Some have ve: "success (validateEmail e)"
      by (auto simp add: updateUser_def Let_def createError_def split: option.splits if_splits)
    from assms sd Some ve
    have chk: "\<not> (success (findUserByEmail svc e) \<and>
                 strictNotEqual (map_option id' (data (findUserByEmail svc e))) (id' u))"
      by (auto simp add: updateUser_def Let_def createError_def split: option.splits if_splits)
    have fnd: "(case find (\<lambda>w. IUser.email w = e) (Map_values (users svc)) of
                   None \<Rightarrow> True | Some w \<Rightarrow> id' w = id' u)"
      using chk
      by (auto simp add: findUserByEmail_def strictNotEqual_def createSuccess_def createError_def
          split: option.splits)
    from assms sd Some ve chk
    have "updateUser rt svc i upd =
             (createSuccess (Some \<lparr>id' = id' u,
                  IUser.name = logicalOr (PartialRequest.name upd) (IUser.name u),
                  IUser.email = logicalOr (PartialRequest.email upd) (IUser.email u)\<rparr>),
              svc\<lparr>users := Map_set (users svc) (id' u)
                  \<lparr>id' = id' u,
                   IUser.name = logicalOr (PartialRequest.name upd) (IUser.name u),
                   IUser.email = logicalOr (PartialRequest.email upd) (IUser.email u)\<rparr>\<rparr>)"
      by (auto simp add: updateUser_def Let_def createError_def split: option.splits if_splits)
    with n u Some fnd validateEmail_success [OF ve] show ?thesis by auto
  qed
qed

lemma Map_get_mem: "Map_get m k = Some v \<Longrightarrow> (k, v) \<in> set m"
  by (simp add: Map_get_def map_of_SomeD)

lemma store_inv_updateUser:
  assumes inv: "store_inv svc"
  shows "store_inv (snd (updateUser rt svc i upd))"
proof (cases "snd (updateUser rt svc i upd) = svc")
  case True
  with inv show ?thesis by simp
next
  case False
  then have "success (fst (updateUser rt svc i upd)) \<or> snd (updateUser rt svc i upd) \<noteq> svc"
    by simp
  from updateUser_changes [OF this]
  obtain n u where u: "Map_get (users svc) n = Some u"
    and em: "(case PartialRequest.email upd of
              None \<Rightarrow> True
            | Some e \<Rightarrow> e \<noteq> [] \<and> emailRegex_test e \<and>
                (case find (\<lambda>w. IUser.email w = e) (Map_values (users svc)) of
                   None \<Rightarrow> True
                 | Some w \<Rightarrow> id' w = id' u))"
    and eq: "updateUser rt svc i upd =
             (createSuccess (Some \<lparr>id' = id' u,
                  IUser.name = logicalOr (PartialRequest.name upd) (IUser.name u),
                  IUser.email = logicalOr (PartialRequest.email upd) (IUser.email u)\<rparr>),
              svc\<lparr>users := Map_set (users svc) (id' u)
                  \<lparr>id' = id' u,
                   IUser.name = logicalOr (PartialRequest.name upd) (IUser.name u),
                   IUser.email = logicalOr (PartialRequest.email upd) (IUser.email u)\<rparr>\<rparr>)"
    by blast
  let ?e = "logicalOr (PartialRequest.email upd) (IUser.email u)"
  let ?v = "\<lparr>id' = id' u, IUser.name = logicalOr (PartialRequest.name upd) (IUser.name u),
             IUser.email = ?e\<rparr>"
  have mem: "(n, u) \<in> set (users svc)"
    using u by (rule Map_get_mem)
  have idn: "id' u = n"
    using inv mem by (auto simp add: store_inv_def)
  have dk: "distinct (map fst (users svc))"
    using inv by (simp add: store_inv_def)
  have de: "distinct (map (\<lambda>p. IUser.email (snd p)) (users svc))"
    using inv by (simp add: store_inv_def)
  have key_id: "\<And>p. p \<in> set (users svc) \<Longrightarrow> id' (snd p) = fst p"
    using inv by (simp add: store_inv_def)
  have only: "p = (n, u)" if "p \<in> set (users svc)" "fst p = n" for p
    using that mem dk by (metis eq_key_imp_eq_value prod.collapse)
  have others: "IUser.email (snd p) \<noteq> ?e" if p: "p \<in> set (users svc)" and ne: "fst p \<noteq> n" for p
  proof (cases "PartialRequest.email upd")
    case None
    then have "?e = IUser.email u" by (simp add: logicalOr_def)
    moreover have "IUser.email (snd p) \<noteq> IUser.email (snd (n, u))"
      using de p mem ne by (metis (mono_tags, lifting) distinct_map inj_onD fst_conv)
    ultimately show ?thesis by simp
  next
    case (Some e)
    with em have e: "e \<noteq> []" and f: "(case find (\<lambda>w. IUser.email w = e) (Map_values (users svc)) of
                   None \<Rightarrow> True | Some w \<Rightarrow> id' w = id' u)"
      by simp_all
    from Some e have ee: "?e = e" by (simp add: logicalOr_def)
    show ?thesis
    proof (cases "find (\<lambda>w. IUser.email w = e) (Map_values (users svc))")
      case None
      with p ee show ?thesis by (simp add: find_email_None)
    next
      case (Some w)
      with f have idw: "id' w = id' u" by simp
      from find_email_Some [OF Some] obtain k where kw: "(k, w) \<in> set (users svc)"
        and ew: "IUser.email w = e" by blast
      from key_id [OF kw] idw idn have "k = n" by simp
      with only [OF kw] have "w = u" by simp
      with ew ee have "?e = IUser.email (snd (n, u))" by simp
      moreover have "IUser.email (snd p) \<noteq> IUser.email (snd (n, u))"
        using de p mem ne by (metis (mono_tags, lifting) distinct_map inj_onD fst_conv)
      ultimately show ?thesis by simp
    qed
  qed
  have present: "n \<in> fst ` set (users svc)"
    using mem by force
  have new: "Map_set (users svc) n ?v = map (\<lambda>p. if fst p = n then (n, ?v) else p) (users svc)"
    using present dk by (rule Map_set_present)
  have d2: "distinct (map (\<lambda>p. IUser.email (snd (if fst p = n then (n, ?v) else p))) (users svc))"
    using de _ dk
  proof (rule distinct_replace)
    show "\<forall>p\<in>set (users svc). fst p \<noteq> n \<longrightarrow> IUser.email (snd p) \<noteq> IUser.email (snd (n, ?v))"
      using others by simp
  qed
  let ?m = "map (\<lambda>p. if fst p = n then (n, ?v) else p) (users svc)"
  have c1: "distinct (map fst ?m)"
    using dk by (simp only: map_fst_replace)
  have c2: "id' (snd p) = fst p \<and>
      (\<exists>k. fst p = Finite (of_nat k) \<and> 1 \<le> k \<and> (k < nextId svc \<or> k = maxCounter))"
    if "p \<in> set ?m" for p
  proof -
    from that have "p \<in> (\<lambda>q. if fst q = n then (n, ?v) else q) ` set (users svc)"
      by simp
    then obtain q where q: "q \<in> set (users svc)"
      and p: "p = (if fst q = n then (n, ?v) else q)" by blast
    from inv q have qq: "id' (snd q) = fst q \<and>
        (\<exists>k. fst q = Finite (of_nat k) \<and> 1 \<le> k \<and> (k < nextId svc \<or> k = maxCounter))"
      by (simp add: store_inv_def)
    show ?thesis
    proof (cases "fst q = n")
      case True
      with p qq idn show ?thesis by auto
    next
      case False
      with p qq show ?thesis by simp
    qed
  qed
  have c3: "distinct (map (\<lambda>p. IUser.email (snd p)) ?m)"
    using d2 by (simp add: comp_def)
  have c4: "1 \<le> nextId svc \<and> nextId svc \<le> maxCounter"
    using inv by (simp add: store_inv_def)
  have "store_inv (svc\<lparr>users := ?m\<rparr>)"
    unfolding store_inv_def using c1 c2 c3 c4 by simp
  with eq idn new show ?thesis by simp
qed

lemma store_inv_call: "store_inv svc \<Longrightarrow> store_inv (snd (call rt svc c))"
  by (cases c)
     (simp_all add: store_inv_createUser store_inv_updateUser store_inv_deleteUser split_beta)

lemma store_inv_exec: "store_inv svc \<Longrightarrow> store_inv (exec rt svc cs)"
  by (induction cs arbitrary: svc) (simp_all add: store_inv_call)

lemma store_inv_reachable: "store_inv (exec rt newUserService cs)"
  by (rule store_inv_exec [OF store_inv_new])

subsection \<open>Evaluating the sample data\<close>

lemmas eval_defs =
  createUser_def getUserById_def getAllUsers_def updateUser_def deleteUser_def
  validateName_def validateEmail_def findUserByEmail_def emailRegex_test_def emailChar_def
  isWhiteSpace_def isDecimalDigit_def digitsValue_def isNotEmpty_def isNotUndefined_def
  toNumber_def js_Number_def js_String_def decimal.simps logicalOr_def strictNotEqual_def
  createSuccess_def createError_def newUserService_def sample_runtime_def
  postIncrement_def maxCounter_def
  Map_get_def Map_has_def Map_delete_def Map_values_def Let_def

lemma exec_john: "exec sample_runtime newUserService [CreateUser john] = oneUser"
  by (simp add: eval_defs john_def johnUser_def oneUser_def)

lemma getUserById_one: "getUserById sample_runtime oneUser ''1'' = createSuccess (Some johnUser)"
  by (simp add: eval_defs oneUser_def johnUser_def)

lemmas sample_defs = john_def jane_def johnUser_def janeUser_def oneUser_def

lemmas hyp_defs =
  emailRegex_test_def emailChar_def isWhiteSpace_def Map_values_def Map_has_def Map_get_def
  toNumber_def js_Number_def js_String_def decimal.simps isDecimalDigit_def digitsValue_def
  createSuccess_def createError_def sample_runtime_def Let_def

subsection \<open>Uniqueness, ids and failures\<close>

text \<open>
  C1. After every sequence of calls on a fresh service, no two records in the store
  share an email. Emails are compared as strings, code unit by code unit, so two
  emails that differ in case only are different.
\<close>

theorem email_uniqueness:
  "distinct (map IUser.email (Map_values (users (exec rt newUserService cs))))"
  using store_inv_reachable [of rt cs]
  by (simp add: store_inv_def Map_values_def comp_def)

theorem email_uniqueness_witness:
  "map IUser.email (Map_values (users (exec sample_runtime newUserService
      [CreateUser john, CreateUser john,
       CreateUser \<lparr>IUserCreateRequest.name = ''Jane Doe'', IUserCreateRequest.email = ''John@example.com''\<rparr>])))
     = [''john@example.com'', ''John@example.com''] \<and>
   distinct [''john@example.com'', ''John@example.com'']"
  using email_uniqueness [of sample_runtime
      "[CreateUser john, CreateUser john,
        CreateUser \<lparr>IUserCreateRequest.name = ''Jane Doe'', IUserCreateRequest.email = ''John@example.com''\<rparr>]"]
  by (simp add: eval_defs john_def)

lemma createUser_success:
  assumes "success (fst (createUser svc request))"
  shows "createUser svc request =
     (createSuccess (Some \<lparr>id' = Finite (of_nat (nextId svc)),
                        IUser.name = IUserCreateRequest.name request,
                        IUser.email = IUserCreateRequest.email request\<rparr>),
      svc\<lparr>users := Map_set (users svc) (Finite (of_nat (nextId svc)))
                  \<lparr>id' = Finite (of_nat (nextId svc)),
                   IUser.name = IUserCreateRequest.name request,
                   IUser.email = IUserCreateRequest.email request\<rparr>,
          nextId := postIncrement (nextId svc)\<rparr>)"
  using assms
  by (auto simp add: createUser_def Let_def createError_def split: if_splits)

lemma createUser_failure:
  assumes "\<not> success (fst (createUser svc request))"
  shows "snd (createUser svc request) = svc"
  using assms
  by (auto simp add: createUser_def Let_def createSuccess_def split: if_splits)

lemma createUser_data:
  "\<not> success (fst (createUser svc request)) \<Longrightarrow> data (fst (createUser svc request)) = None"
  by (auto simp add: createUser_def Let_def createSuccess_def createError_def split: if_splits)

lemma nextId_updateUser: "nextId (snd (updateUser rt svc i upd)) = nextId svc"
proof (cases "snd (updateUser rt svc i upd) = svc")
  case True
  then show ?thesis by simp
next
  case False
  then have "success (fst (updateUser rt svc i upd)) \<or> snd (updateUser rt svc i upd) \<noteq> svc"
    by simp
  from updateUser_changes [OF this] show ?thesis by auto
qed

lemma nextId_deleteUser: "nextId (snd (deleteUser rt svc i)) = nextId svc"
  by (auto simp add: deleteUser_def Let_def split: option.splits)

lemma created_step:
  "(createdIds ((c, fst (call rt svc c)) # rest) = createdIds rest \<and>
      nextId (snd (call rt svc c)) = nextId svc) \<or>
   (createdIds ((c, fst (call rt svc c)) # rest) = Finite (of_nat (nextId svc)) # createdIds rest \<and>
      nextId (snd (call rt svc c)) = postIncrement (nextId svc))"
proof (cases c)
  case (CreateUser request)
  show ?thesis
  proof (cases "success (fst (createUser svc request))")
    case True
    from createUser_success [OF True] CreateUser show ?thesis
      by (simp add: createSuccess_def)
  next
    case False
    with createUser_failure [OF False] createUser_data [OF False] CreateUser show ?thesis
      by (simp add: split_beta)
  qed
qed (simp_all add: split_beta nextId_updateUser nextId_deleteUser)

lemma min_postIncrement:
  "n \<le> maxCounter \<Longrightarrow> min (postIncrement n + i) maxCounter = min (n + Suc i) maxCounter"
  by (simp add: postIncrement_def)

lemma createdIds_from:
  "nextId svc \<le> maxCounter \<Longrightarrow>
   createdIds (responses rt svc cs) =
     map (\<lambda>i. Finite (of_nat (min (nextId svc + i) maxCounter)))
       [0 ..< length (createdIds (responses rt svc cs))]"
proof (induction cs arbitrary: svc)
  case Nil
  then show ?case by simp
next
  case (Cons c cs)
  let ?s = "snd (call rt svc c)"
  let ?rest = "responses rt ?s cs"
  from created_step [of c rt svc ?rest]
  consider
    (same) "createdIds ((c, fst (call rt svc c)) # ?rest) = createdIds ?rest"
      "nextId ?s = nextId svc"
  | (new) "createdIds ((c, fst (call rt svc c)) # ?rest) = Finite (of_nat (nextId svc)) # createdIds ?rest"
      "nextId ?s = postIncrement (nextId svc)"
    by blast
  then show ?case
  proof cases
    case same
    with Cons.prems have "nextId ?s \<le> maxCounter" by simp
    from Cons.IH [OF this] same show ?thesis by simp
  next
    case new
    with Cons.prems have le: "nextId ?s \<le> maxCounter" by (simp add: postIncrement_le)
    let ?k = "length (createdIds ?rest)"
    have "createdIds ?rest =
        map (\<lambda>i. Finite (of_nat (min (postIncrement (nextId svc) + i) maxCounter))) [0 ..< ?k]"
      using Cons.IH [OF le] new(2) by simp
    also have "\<dots> = map (\<lambda>i. Finite (of_nat (min (nextId svc + Suc i) maxCounter))) [0 ..< ?k]"
      using Cons.prems by (simp only: min_postIncrement)
    finally have rest: "createdIds ?rest =
        map (\<lambda>i. Finite (of_nat (min (nextId svc + Suc i) maxCounter))) [0 ..< ?k]" .
    have "map (\<lambda>i. Finite (of_nat (min (nextId svc + i) maxCounter))) [0 ..< Suc ?k] =
        Finite (of_nat (nextId svc)) #
        map (\<lambda>i. Finite (of_nat (min (nextId svc + Suc i) maxCounter))) [0 ..< ?k]"
      using Cons.prems by (simp only: map_upt_Suc) simp
    with rest new(1) show ?thesis by simp
  qed
qed

lemma number_less_sorted: "sorted_wrt number_less (map (\<lambda>n. Finite (of_nat n)) [a ..< b])"
  by (simp add: sorted_wrt_map)

lemma number_distinct: "distinct (map (\<lambda>n::nat. Finite (of_nat n)) [a ..< b])"
  by (simp add: distinct_map inj_on_def)

text \<open>
  C2, as the code has it. Over every sequence of calls on a fresh service in which at
  most \<open>2^53\<close> \<open>createUser\<close> calls succeed, the ids that those calls return are
  \<open>1, 2, 3, \<dots>\<close> in call order: they start at 1, are strictly increasing, and none is
  returned twice, whatever was deleted in between.
\<close>

theorem id_monotonicity:
  assumes "length (createdIds (responses rt newUserService cs)) \<le> maxCounter"
  shows "createdIds (responses rt newUserService cs) =
     map (\<lambda>n. Finite (of_nat n)) [1 ..< Suc (length (createdIds (responses rt newUserService cs)))] \<and>
   sorted_wrt number_less (createdIds (responses rt newUserService cs)) \<and>
   distinct (createdIds (responses rt newUserService cs))"
proof -
  let ?ids = "createdIds (responses rt newUserService cs)"
  let ?k = "length ?ids"
  have "?ids = map (\<lambda>i. Finite (of_nat (min (1 + i) maxCounter))) [0 ..< ?k]"
    using createdIds_from [of newUserService rt cs] by (simp add: newUserService_def maxCounter_def)
  also have "\<dots> = map (\<lambda>i. Finite (of_nat (Suc i))) [0 ..< ?k]"
    using assms by (intro map_cong) auto
  also have "\<dots> = map (\<lambda>n. Finite (of_nat n)) (map Suc [0 ..< ?k])"
    by (simp add: comp_def)
  also have "\<dots> = map (\<lambda>n. Finite (of_nat n)) [1 ..< Suc ?k]"
    by (simp only: map_Suc_upt One_nat_def)
  finally have eq: "?ids = map (\<lambda>n. Finite (of_nat n)) [1 ..< Suc ?k]" .
  have "sorted_wrt number_less (map (\<lambda>n. Finite (of_nat n)) [1 ..< Suc ?k])"
    by (rule number_less_sorted)
  moreover have "distinct (map (\<lambda>n::nat. Finite (of_nat n)) [1 ..< Suc ?k])"
    by (rule number_distinct)
  ultimately show ?thesis using eq by metis
qed

theorem id_monotonicity_witness:
  "length (createdIds (responses sample_runtime newUserService
      [CreateUser john, DeleteUser ''1'', CreateUser john, CreateUser john, CreateUser jane]))
     \<le> maxCounter \<and>
   createdIds (responses sample_runtime newUserService
      [CreateUser john, DeleteUser ''1'', CreateUser john, CreateUser john, CreateUser jane])
     = [Finite 1, Finite 2, Finite 3] \<and>
   sorted_wrt number_less [Finite 1, Finite 2, Finite 3] \<and>
   distinct [Finite 1, Finite 2, Finite 3 :: number]"
proof -
  have ids: "createdIds (responses sample_runtime newUserService
      [CreateUser john, DeleteUser ''1'', CreateUser john, CreateUser john, CreateUser jane])
     = [Finite 1, Finite 2, Finite 3]"
    by (simp add: eval_defs john_def jane_def)
  have le: "length (createdIds (responses sample_runtime newUserService
      [CreateUser john, DeleteUser ''1'', CreateUser john, CreateUser john, CreateUser jane]))
     \<le> maxCounter"
    unfolding ids by (simp add: maxCounter_def)
  from id_monotonicity [OF le] ids le show ?thesis by simp
qed

lemma digit_char: "d < 10 \<Longrightarrow> (of_char (''0123456789'' ! d) :: nat) = 48 + d"
proof -
  assume "d < 10"
  then have "d \<in> {0, 1, 2, 3, 4, 5, 6, 7, 8, 9}" by auto
  then show ?thesis by auto
qed

lemma decimal_not_empty: "decimal n \<noteq> []"
  by (subst decimal.simps) simp

lemma decimal_digits: "list_all isDecimalDigit (decimal n)"
proof (induction n rule: decimal.induct)
  case (1 n)
  show ?case
  proof (cases "n < 10")
    case True
    then show ?thesis
      by (subst decimal.simps) (simp add: isDecimalDigit_def digit_char)
  next
    case False
    with 1 have "list_all isDecimalDigit (decimal (n div 10))" by simp
    moreover have "isDecimalDigit (''0123456789'' ! (n mod 10))"
      by (simp add: isDecimalDigit_def digit_char)
    ultimately show ?thesis using False
      by (subst decimal.simps) simp
  qed
qed

lemma digitsValue_snoc: "digitsValue (s @ [c]) = 10 * digitsValue s + (of_char c - 48)"
  by (simp add: digitsValue_def)

lemma digitsValue_decimal: "digitsValue (decimal n) = n"
proof (induction n rule: decimal.induct)
  case (1 n)
  show ?case
  proof (cases "n < 10")
    case True
    then show ?thesis
      by (subst decimal.simps) (simp add: digitsValue_def digit_char)
  next
    case False
    with 1 have "digitsValue (decimal (n div 10)) = n div 10" by simp
    then show ?thesis using False
      by (subst decimal.simps) (simp add: digitsValue_snoc digit_char)
  qed
qed

lemma decimal_not_white: "\<not> list_all isWhiteSpace (decimal n)"
proof -
  obtain c s where cs: "decimal n = c # s"
    using decimal_not_empty [of n] by (cases "decimal n") auto
  with decimal_digits [of n] have "isDecimalDigit c" by simp
  then have "\<not> isWhiteSpace c" by (auto simp add: isDecimalDigit_def isWhiteSpace_def)
  with cs show ?thesis by simp
qed

lemma js_Number_decimal:
  "n \<le> maxCounter \<Longrightarrow> js_Number digits_runtime (decimal n) = Finite (of_nat n)"
  by (simp add: js_Number_def digits_runtime_def decimal_not_white decimal_digits
      digitsValue_decimal decimal_not_empty)

lemma toNumber_decimal:
  "n \<le> maxCounter \<Longrightarrow> toNumber digits_runtime (JString (decimal n)) = createSuccess (Some (Finite (of_nat n)))"
  by (simp add: toNumber_def js_Number_decimal)

lemma create_john_empty:
  "createUser \<lparr>users = [], nextId = n\<rparr> john =
     (createSuccess (Some \<lparr>id' = Finite (of_nat n), IUser.name = ''John Doe'',
                           IUser.email = ''john@example.com''\<rparr>),
      \<lparr>users = [(Finite (of_nat n), \<lparr>id' = Finite (of_nat n), IUser.name = ''John Doe'',
                                    IUser.email = ''john@example.com''\<rparr>)],
       nextId = postIncrement n\<rparr>)"
  by (simp add: createUser_def validateName_def validateEmail_def findUserByEmail_def
      emailRegex_test_def emailChar_def isWhiteSpace_def isNotEmpty_def Map_values_def
      createSuccess_def createError_def john_def Let_def)

lemma delete_only:
  "n \<le> maxCounter \<Longrightarrow>
   deleteUser digits_runtime \<lparr>users = [(Finite (of_nat n), u)], nextId = m\<rparr> (decimal n) =
     (createSuccess (Some True), \<lparr>users = [], nextId = m\<rparr>)"
  by (simp add: deleteUser_def toNumber_decimal createSuccess_def Map_has_def Map_delete_def)

lemma exec_append: "exec rt svc (xs @ ys) = exec rt (exec rt svc xs) ys"
  by (induction xs arbitrary: svc) simp_all

lemma responses_append:
  "responses rt svc (xs @ ys) = responses rt svc xs @ responses rt (exec rt svc xs) ys"
  by (induction xs arbitrary: svc) simp_all

lemma createdIds_append: "createdIds (xs @ ys) = createdIds xs @ createdIds ys"
  by (induction xs rule: createdIds.induct) (simp_all split: option.splits bool.splits)

lemma churn_round:
  "n \<le> maxCounter \<Longrightarrow>
   exec digits_runtime \<lparr>users = [], nextId = n\<rparr> [CreateUser john, DeleteUser (decimal n)] =
     \<lparr>users = [], nextId = postIncrement n\<rparr> \<and>
   createdIds (responses digits_runtime \<lparr>users = [], nextId = n\<rparr>
       [CreateUser john, DeleteUser (decimal n)]) = [Finite (of_nat n)]"
  by (simp add: create_john_empty delete_only createSuccess_def)

lemma churn_run:
  "k \<le> maxCounter \<Longrightarrow>
   exec digits_runtime newUserService (churn k) = \<lparr>users = [], nextId = min (Suc k) maxCounter\<rparr> \<and>
   createdIds (responses digits_runtime newUserService (churn k)) =
     map (\<lambda>n. Finite (of_nat n)) [1 ..< Suc k]"
proof (induction k)
  case 0
  then show ?case by (simp add: newUserService_def maxCounter_def)
next
  case (Suc k)
  then have k: "k < maxCounter" and IH:
    "exec digits_runtime newUserService (churn k) = \<lparr>users = [], nextId = Suc k\<rparr>"
    "createdIds (responses digits_runtime newUserService (churn k)) =
       map (\<lambda>n. Finite (of_nat n)) [1 ..< Suc k]"
    by simp_all
  from k have le: "Suc k \<le> maxCounter" by simp
  have post: "postIncrement (Suc k) = min (Suc (Suc k)) maxCounter"
    using le by (simp add: postIncrement_def)
  note round = churn_round [OF le]
  have e: "exec digits_runtime newUserService (churn (Suc k)) =
      \<lparr>users = [], nextId = min (Suc (Suc k)) maxCounter\<rparr>"
    by (simp only: churn.simps exec_append IH round post)
  have "createdIds (responses digits_runtime newUserService (churn (Suc k))) =
      map (\<lambda>n. Finite (of_nat n)) [1 ..< Suc k] @ [Finite (of_nat (Suc k))]"
    by (simp only: churn.simps responses_append createdIds_append IH round)
  also have "\<dots> = map (\<lambda>n. Finite (of_nat n)) [1 ..< Suc (Suc k)]"
    by simp
  finally show ?case using e by simp
qed

lemma maxCounter_pos: "1 \<le> maxCounter"
  by (simp add: maxCounter_def)

text \<open>
  C2 as stated fails. Run \<open>churn (2^53)\<close> and then \<open>createUser(john)\<close> on a fresh
  service: the \<open>2^53\<close>-th \<open>createUser\<close> returns the id \<open>2^53\<close> and leaves the counter at
  \<open>2^53\<close>, that record is deleted, and the next \<open>createUser\<close> returns the id \<open>2^53\<close>
  again. The ids returned are neither pairwise distinct nor strictly increasing.
\<close>

theorem id_reused_at_limit:
  "createdIds (responses digits_runtime newUserService (churn maxCounter @ [CreateUser john])) =
     map (\<lambda>n. Finite (of_nat n)) [1 ..< Suc maxCounter] @ [Finite (of_nat maxCounter)] \<and>
   \<not> distinct (createdIds (responses digits_runtime newUserService (churn maxCounter @ [CreateUser john]))) \<and>
   \<not> sorted_wrt number_less
       (createdIds (responses digits_runtime newUserService (churn maxCounter @ [CreateUser john])))"
proof -
  let ?ids = "createdIds (responses digits_runtime newUserService (churn maxCounter @ [CreateUser john]))"
  from churn_run [of maxCounter]
  have e: "exec digits_runtime newUserService (churn maxCounter) = \<lparr>users = [], nextId = maxCounter\<rparr>"
    and i: "createdIds (responses digits_runtime newUserService (churn maxCounter)) =
       map (\<lambda>n. Finite (of_nat n)) [1 ..< Suc maxCounter]"
    by simp_all
  have last: "createdIds (responses digits_runtime \<lparr>users = [], nextId = maxCounter\<rparr> [CreateUser john])
      = [Finite (of_nat maxCounter)]"
    by (simp add: create_john_empty createSuccess_def)
  have ids: "?ids = map (\<lambda>n. Finite (of_nat n)) [1 ..< Suc maxCounter] @ [Finite (of_nat maxCounter)]"
    by (simp only: responses_append createdIds_append e i last)
  have mem: "Finite (of_nat maxCounter) \<in> set (map (\<lambda>n. Finite (of_nat n)) [1 ..< Suc maxCounter])"
    using maxCounter_pos by (simp add: image_iff)
  have nd: "\<not> distinct ?ids"
    unfolding ids using mem by (simp only: distinct_append) simp
  have "\<not> number_less (Finite (of_nat maxCounter)) (Finite (of_nat maxCounter))"
    by simp
  with mem have ns: "\<not> sorted_wrt number_less ?ids"
    unfolding ids sorted_wrt_append by auto
  from ids nd ns show ?thesis by blast
qed

text \<open>
  C5. A call that returns an Err leaves the service as it was: the same map and the
  same counter. This holds on every service, reached or not.
\<close>

theorem error_atomicity:
  "\<not> succeeded (fst (call rt svc c)) \<Longrightarrow> snd (call rt svc c) = svc"
proof (cases c)
  case (CreateUser request)
  assume "\<not> succeeded (fst (call rt svc c))"
  with CreateUser show ?thesis by (simp add: split_beta createUser_failure)
next
  case (UpdateUser i upd)
  assume f: "\<not> succeeded (fst (call rt svc c))"
  show ?thesis
  proof (rule ccontr)
    assume "snd (call rt svc c) \<noteq> svc"
    with UpdateUser
    have "success (fst (updateUser rt svc i upd)) \<or> snd (updateUser rt svc i upd) \<noteq> svc"
      by (simp add: split_beta)
    from updateUser_changes [OF this] have "success (fst (updateUser rt svc i upd))"
      by (auto simp add: createSuccess_def)
    with f UpdateUser show False by (simp add: split_beta)
  qed
next
  case (DeleteUser i)
  assume "\<not> succeeded (fst (call rt svc c))"
  with DeleteUser show ?thesis
    by (auto simp add: split_beta deleteUser_def Let_def createSuccess_def split: option.splits if_splits)
qed simp_all

theorem error_atomicity_witness:
  "\<not> succeeded (fst (call sample_runtime oneUser (CreateUser john))) \<and>
   snd (call sample_runtime oneUser (CreateUser john)) = oneUser \<and>
   \<not> succeeded (fst (call sample_runtime oneUser (DeleteUser ''2''))) \<and>
   snd (call sample_runtime oneUser (DeleteUser ''2'')) = oneUser"
proof -
  have a: "\<not> succeeded (fst (call sample_runtime oneUser (CreateUser john)))"
    by (simp add: eval_defs john_def johnUser_def oneUser_def)
  have b: "\<not> succeeded (fst (call sample_runtime oneUser (DeleteUser ''2'')))"
    by (simp add: eval_defs johnUser_def oneUser_def)
  from a b error_atomicity [OF a] error_atomicity [OF b] show ?thesis by simp
qed

subsection \<open>createUser\<close>

lemma emailRegex_test_iff:
  "emailRegex_test s \<longleftrightarrow>
     (\<exists>l d t. s = l @ ''@'' @ d @ ''.'' @ t \<and> l \<noteq> [] \<and> d \<noteq> [] \<and> t \<noteq> [] \<and>
        list_all emailChar l \<and> list_all emailChar d \<and> list_all emailChar t)"
proof
  assume "emailRegex_test s"
  then obtain r where l: "takeWhile emailChar s \<noteq> []"
    and dr: "dropWhile emailChar s = CHR ''@'' # r"
    and all: "list_all emailChar r"
    and dot: "CHR ''.'' \<in> set (butlast (tl r))"
    by (auto simp add: emailRegex_test_def split: list.splits)
  from dot obtain x r' where r: "r = x # r'" by (cases r) auto
  with dot have "r' \<noteq> []" by auto
  then obtain r'' y where r': "r' = r'' @ [y]" by (metis rev_exhaust)
  with r dot have "CHR ''.'' \<in> set r''" by simp
  then obtain a b where ab: "r'' = a @ CHR ''.'' # b" by (meson split_list)
  have s: "s = takeWhile emailChar s @ dropWhile emailChar s" by simp
  have "s = takeWhile emailChar s @ ''@'' @ (x # a) @ ''.'' @ (b @ [y])"
    using s dr r r' ab by simp
  moreover have "list_all emailChar (takeWhile emailChar s)"
    by (simp add: list_all_iff) (meson set_takeWhileD)
  moreover have "list_all emailChar (x # a)" "list_all emailChar (b @ [y])"
    using all r r' ab by simp_all
  ultimately show "\<exists>l d t. s = l @ ''@'' @ d @ ''.'' @ t \<and> l \<noteq> [] \<and> d \<noteq> [] \<and> t \<noteq> [] \<and>
        list_all emailChar l \<and> list_all emailChar d \<and> list_all emailChar t"
    using l by blast
next
  assume "\<exists>l d t. s = l @ ''@'' @ d @ ''.'' @ t \<and> l \<noteq> [] \<and> d \<noteq> [] \<and> t \<noteq> [] \<and>
        list_all emailChar l \<and> list_all emailChar d \<and> list_all emailChar t"
  then obtain l d t where s: "s = l @ ''@'' @ d @ ''.'' @ t" and ne: "l \<noteq> []" "d \<noteq> []" "t \<noteq> []"
    and cl: "list_all emailChar l" "list_all emailChar d" "list_all emailChar t"
    by blast
  have at: "\<not> emailChar CHR ''@''" by (simp add: emailChar_def)
  have dotc: "emailChar CHR ''.''" by (simp add: emailChar_def isWhiteSpace_def)
  have tw: "takeWhile emailChar s = l"
    using s cl(1) at by (simp add: list_all_iff takeWhile_append2)
  have dw: "dropWhile emailChar s = CHR ''@'' # (d @ ''.'' @ t)"
    using s cl(1) at by (simp add: list_all_iff dropWhile_append2)
  have "CHR ''.'' \<in> set (butlast (tl (d @ ''.'' @ t)))"
    using ne by (cases d) (simp_all add: butlast_append)
  then show "emailRegex_test s"
    using tw dw ne cl dotc by (simp add: emailRegex_test_def)
qed

lemma reachable_keys:
  assumes "p \<in> set (users (exec rt newUserService cs))"
  shows "id' (snd p) = fst p \<and>
    (\<exists>n. fst p = Finite (of_nat n) \<and> 1 \<le> n \<and>
       (n < nextId (exec rt newUserService cs) \<or> n = maxCounter))"
  using store_inv_reachable [of rt cs] assms by (simp add: store_inv_def)


lemma store_inv_ids: "store_inv svc \<Longrightarrow> map id' (Map_values (users svc)) = map fst (users svc)"
  by (simp add: store_inv_def Map_values_def)

lemma Map_get_Map_set_same: "Map_get (Map_set m k v) k = Some v"
  by (induction m) (auto simp add: Map_get_def)

lemma Map_get_append_new: "k \<notin> fst ` set m \<Longrightarrow> Map_get (m @ [(k, v)]) k = Some v"
  by (induction m) (auto simp add: Map_get_def)




subsection \<open>getUserById and the empty id\<close>

lemma store_inv_Map_get:
  assumes inv: "store_inv svc"
  shows "Map_get (users svc) k = Some u \<longleftrightarrow> u \<in> set (Map_values (users svc)) \<and> id' u = k"
proof
  assume "Map_get (users svc) k = Some u"
  then have mem: "(k, u) \<in> set (users svc)" by (rule Map_get_mem)
  with inv have "id' u = k" by (auto simp add: store_inv_def)
  moreover from mem have "u \<in> set (Map_values (users svc))" by (force simp add: Map_values_def)
  ultimately show "u \<in> set (Map_values (users svc)) \<and> id' u = k" by simp
next
  assume a: "u \<in> set (Map_values (users svc)) \<and> id' u = k"
  then obtain k' where mem: "(k', u) \<in> set (users svc)" by (auto simp add: Map_values_def)
  with inv have "id' u = k'" by (auto simp add: store_inv_def)
  with a mem have "(k, u) \<in> set (users svc)" by simp
  moreover from inv have "distinct (map fst (users svc))" by (simp add: store_inv_def)
  ultimately show "Map_get (users svc) k = Some u" by (simp add: Map_get_def)
qed

lemma store_inv_Map_get_None:
  assumes inv: "store_inv svc"
  shows "Map_get (users svc) k = None \<longleftrightarrow> k \<notin> set (map id' (Map_values (users svc)))"
  by (simp add: store_inv_ids [OF inv] Map_get_def map_of_eq_None_iff)

text \<open>
  C6. \<open>getUserById(idText)\<close> on a reached service, with \<open>conv\<close> the result of
  \<open>toNumber(idText)\<close>: when \<open>conv\<close> is an Err, its message \<open>m\<close> is returned behind the
  prefix \<open>Invalid ID format: \<close>; when \<open>conv\<close> is Ok with the number \<open>k\<close> and no record
  has the id \<open>k\<close>, the result is the Err \<open>User not found with ID: \<close> followed by
  \<open>String(k)\<close>; when a record \<open>u\<close> has the id \<open>k\<close>, the result is Ok with \<open>u\<close>. A
  successful \<open>conv\<close> always carries a number, so the three cases are all there are.
\<close>

theorem getUserById_spec:
  assumes svc: "svc = exec rt newUserService cs"
    and conv: "conv = toNumber rt (JString idText)"
  shows
    "(\<not> success conv \<longrightarrow>
        error conv = Some (''Cannot convert '' @ [CHR 0x22] @ idText @ [CHR 0x22] @ '' to number'')) \<and>
     (\<not> success conv \<and> error conv = Some m \<longrightarrow>
        getUserById rt svc idText = createError (''Invalid ID format: '' @ m)) \<and>
     (success conv \<longrightarrow> conv = createSuccess (Some (js_Number rt idText))) \<and>
     (conv = createSuccess (Some k) \<and> k \<notin> set (map id' (Map_values (users svc))) \<longrightarrow>
        getUserById rt svc idText = createError (''User not found with ID: '' @ js_String rt k)) \<and>
     (conv = createSuccess (Some k) \<and> u \<in> set (Map_values (users svc)) \<and> id' u = k \<longrightarrow>
        getUserById rt svc idText = createSuccess (Some u))"
proof -
  have inv: "store_inv svc"
    using svc by (simp add: store_inv_reachable)
  have c1: "\<not> success conv \<longrightarrow>
        error conv = Some (''Cannot convert '' @ [CHR 0x22] @ idText @ [CHR 0x22] @ '' to number'')"
    by (simp add: conv toNumber_def Let_def createError_def createSuccess_def)
  have c2: "\<not> success conv \<and> error conv = Some m \<longrightarrow>
        getUserById rt svc idText = createError (''Invalid ID format: '' @ m)"
    using c1 by (auto simp add: conv getUserById_def Let_def logicalOr_def)
  have c3: "success conv \<longrightarrow> conv = createSuccess (Some (js_Number rt idText))"
    by (simp add: conv toNumber_def Let_def createError_def)
  have c4: "conv = createSuccess (Some k) \<and> k \<notin> set (map id' (Map_values (users svc))) \<longrightarrow>
        getUserById rt svc idText = createError (''User not found with ID: '' @ js_String rt k)"
  proof
    assume a: "conv = createSuccess (Some k) \<and> k \<notin> set (map id' (Map_values (users svc)))"
    then have "Map_get (users svc) k = None"
      by (simp add: store_inv_Map_get_None [OF inv])
    moreover from a conv have "toNumber rt (JString idText) = createSuccess (Some k)" by simp
    ultimately show "getUserById rt svc idText = createError (''User not found with ID: '' @ js_String rt k)"
      by (simp add: getUserById_def createSuccess_def)
  qed
  have c5: "conv = createSuccess (Some k) \<and> u \<in> set (Map_values (users svc)) \<and> id' u = k \<longrightarrow>
        getUserById rt svc idText = createSuccess (Some u)"
  proof
    assume a: "conv = createSuccess (Some k) \<and> u \<in> set (Map_values (users svc)) \<and> id' u = k"
    then have "Map_get (users svc) k = Some u"
      by (simp add: store_inv_Map_get [OF inv])
    moreover from a conv have "toNumber rt (JString idText) = createSuccess (Some k)" by simp
    ultimately show "getUserById rt svc idText = createSuccess (Some u)"
      by (simp add: getUserById_def createSuccess_def)
  qed
  from c1 c2 c3 c4 c5 show ?thesis by blast
qed

theorem getUserById_spec_witness:
  "oneUser = exec sample_runtime newUserService [CreateUser john] \<and>
   \<not> success (toNumber sample_runtime (JString ''invalid-id'')) \<and>
   error (toNumber sample_runtime (JString ''invalid-id''))
     = Some (''Cannot convert '' @ [CHR 0x22] @ ''invalid-id'' @ [CHR 0x22] @ '' to number'') \<and>
   getUserById sample_runtime oneUser ''invalid-id''
     = createError (''Invalid ID format: Cannot convert '' @ [CHR 0x22] @ ''invalid-id'' @ [CHR 0x22] @ '' to number'') \<and>
   toNumber sample_runtime (JString ''999'') = createSuccess (Some (Finite 999)) \<and>
   Finite 999 \<notin> set (map id' (Map_values (users oneUser))) \<and>
   getUserById sample_runtime oneUser ''999'' = createError ''User not found with ID: 999'' \<and>
   toNumber sample_runtime (JString ''1'') = createSuccess (Some (Finite 1)) \<and>
   johnUser \<in> set (Map_values (users oneUser)) \<and> id' johnUser = Finite 1 \<and>
   getUserById sample_runtime oneUser ''1'' = createSuccess (Some johnUser)"
proof -
  note spec = getUserById_spec [OF exec_john [symmetric] refl]
  have a1: "\<not> success (toNumber sample_runtime (JString ''invalid-id''))"
    by (simp add: hyp_defs)
  have a2: "error (toNumber sample_runtime (JString ''invalid-id''))
     = Some (''Cannot convert '' @ [CHR 0x22] @ ''invalid-id'' @ [CHR 0x22] @ '' to number'')"
    using spec [of "''invalid-id''"] a1 by blast
  have a3: "getUserById sample_runtime oneUser ''invalid-id''
     = createError (''Invalid ID format: '' @ (''Cannot convert '' @ [CHR 0x22] @ ''invalid-id'' @ [CHR 0x22] @ '' to number''))"
    using spec [of "''invalid-id''"
        "''Cannot convert '' @ [CHR 0x22] @ ''invalid-id'' @ [CHR 0x22] @ '' to number''"] a1 a2
    by blast
  have b1: "toNumber sample_runtime (JString ''999'') = createSuccess (Some (Finite 999))"
    by (simp add: hyp_defs)
  have b2: "Finite 999 \<notin> set (map id' (Map_values (users oneUser)))"
    by (simp add: hyp_defs sample_defs)
  have b3: "getUserById sample_runtime oneUser ''999''
     = createError (''User not found with ID: '' @ js_String sample_runtime (Finite 999))"
    using spec [of "''999''" _ "Finite 999"] b1 b2 by blast
  have b4: "js_String sample_runtime (Finite 999) = ''999''"
    by (simp add: hyp_defs)
  have c1: "toNumber sample_runtime (JString ''1'') = createSuccess (Some (Finite 1))"
    by (simp add: hyp_defs)
  have c2: "johnUser \<in> set (Map_values (users oneUser)) \<and> id' johnUser = Finite 1"
    by (simp add: hyp_defs sample_defs)
  have c3: "getUserById sample_runtime oneUser ''1'' = createSuccess (Some johnUser)"
    using spec [of "''1''" _ "Finite 1" johnUser] c1 c2 by blast
  from a1 a2 a3 b1 b2 b3 b4 c1 c2 c3 exec_john show ?thesis by simp
qed

lemma toNumber_empty: "toNumber rt (JString []) = createSuccess (Some (Finite 0))"
  by (simp add: toNumber_def js_Number_def)

lemma js_String_zero: "js_String rt (Finite 0) = ''0''"
  by (simp add: js_String_def decimal.simps)

lemma reachable_no_zero: "\<not> Map_has (users (exec rt newUserService cs)) (Finite 0)"
proof
  assume "Map_has (users (exec rt newUserService cs)) (Finite 0)"
  then obtain u where "Map_get (users (exec rt newUserService cs)) (Finite 0) = Some u"
    by (auto simp add: Map_has_def Map_get_def)
  then have "(Finite 0, u) \<in> set (users (exec rt newUserService cs))" by (rule Map_get_mem)
  from reachable_keys [OF this] show False by auto
qed

text \<open>
  C10. \<open>toNumber("")\<close> is Ok with 0, since \<open>Number("")\<close> is 0. On a service whose map
  has no key 0, \<open>getUserById("")\<close> and \<open>deleteUser("")\<close> return the Err
  \<open>User not found with ID: 0\<close>, and \<open>deleteUser\<close> leaves the service as it was. No
  reached service has the key 0 or a record with the id 0.
\<close>

theorem empty_id_text:
  "toNumber rt (JString []) = createSuccess (Some (Finite 0)) \<and>
   (\<not> Map_has (users svc) (Finite 0) \<longrightarrow>
      getUserById rt svc [] = createError ''User not found with ID: 0'' \<and>
      deleteUser rt svc [] = (createError ''User not found with ID: 0'', svc)) \<and>
   \<not> Map_has (users (exec rt newUserService cs)) (Finite 0) \<and>
   Finite 0 \<notin> set (map id' (Map_values (users (exec rt newUserService cs))))"
proof -
  have a: "getUserById rt svc [] = createError ''User not found with ID: 0'' \<and>
      deleteUser rt svc [] = (createError ''User not found with ID: 0'', svc)"
    if "\<not> Map_has (users svc) (Finite 0)"
    using that
    by (simp add: getUserById_def deleteUser_def toNumber_empty js_String_zero createSuccess_def
        Map_has_def Map_get_def)
  have b: "\<not> Map_has (users (exec rt newUserService cs)) (Finite 0)"
    by (rule reachable_no_zero)
  then have "Finite 0 \<notin> set (map id' (Map_values (users (exec rt newUserService cs))))"
    by (simp add: store_inv_ids [OF store_inv_reachable] Map_has_def map_of_eq_None_iff)
  with a b toNumber_empty show ?thesis by blast
qed

theorem empty_id_text_witness:
  "toNumber sample_runtime (JString []) = createSuccess (Some (Finite 0)) \<and>
   \<not> Map_has (users oneUser) (Finite 0) \<and>
   getUserById sample_runtime oneUser [] = createError ''User not found with ID: 0'' \<and>
   deleteUser sample_runtime oneUser [] = (createError ''User not found with ID: 0'', oneUser) \<and>
   \<not> Map_has (users (exec sample_runtime newUserService [CreateUser john])) (Finite 0)"
proof -
  have h: "\<not> Map_has (users oneUser) (Finite 0)"
    by (simp add: hyp_defs sample_defs)
  from empty_id_text [of sample_runtime oneUser "[CreateUser john]"] h show ?thesis
    by blast
qed

subsection \<open>updateUser\<close>

lemma createSuccess_inject: "createSuccess a = createSuccess b \<longleftrightarrow> a = b"
  by (simp add: createSuccess_def)

text \<open>
  C4, as the code has it. On a reached service where \<open>getUserById(idText)\<close> finds the
  record \<open>u\<close>: an update whose name is the empty string is refused with
  \<open>Name cannot be empty\<close>, and one whose email is the empty string (the name being absent
  or valid) is refused with \<open>Email cannot be empty\<close>, the service staying as it was;
  when an update succeeds, a field that was not supplied keeps its prior value, the id
  is unchanged, and \<open>getUserById(idText)\<close> then finds the updated record; an update
  that supplies nothing returns \<open>u\<close>.
\<close>

theorem updateUser_fields:
  assumes svc: "svc = exec rt newUserService cs"
    and existing: "getUserById rt svc idText = createSuccess (Some u)"
  shows
    "updateUser rt svc idText \<lparr>PartialRequest.name = Some [], PartialRequest.email = em\<rparr>
       = (createError ''Name cannot be empty'', svc) \<and>
     updateUser rt svc idText \<lparr>PartialRequest.name = None, PartialRequest.email = Some []\<rparr>
       = (createError ''Email cannot be empty'', svc) \<and>
     (n \<noteq> [] \<and> length n \<le> 50 \<longrightarrow>
        updateUser rt svc idText \<lparr>PartialRequest.name = Some n, PartialRequest.email = Some []\<rparr>
          = (createError ''Email cannot be empty'', svc)) \<and>
     (updateUser rt svc idText upd = (createSuccess (Some u'), svc') \<longrightarrow>
        (PartialRequest.name upd = None \<longrightarrow> IUser.name u' = IUser.name u) \<and>
        (PartialRequest.email upd = None \<longrightarrow> IUser.email u' = IUser.email u) \<and>
        id' u' = id' u \<and>
        getUserById rt svc' idText = createSuccess (Some u')) \<and>
     fst (updateUser rt svc idText \<lparr>PartialRequest.name = None, PartialRequest.email = None\<rparr>)
       = createSuccess (Some u)"
proof -
  have inv: "store_inv svc"
    using svc by (simp add: store_inv_reachable)
  have sd: "success (getUserById rt svc idText)" "data (getUserById rt svc idText) = Some u"
    using existing by (simp_all add: createSuccess_def)
  obtain k u0 where k: "toNumber rt (JString idText) = createSuccess (Some k)"
    and u0: "Map_get (users svc) k = Some u0"
    and g: "getUserById rt svc idText = createSuccess (Some u0)"
    using getUserById_success [OF sd(1)] by blast
  from g existing have uu: "u0 = u" by (simp add: createSuccess_inject)
  have idk: "id' u = k"
    using u0 uu store_inv_Map_get [OF inv] by simp
  have c1: "updateUser rt svc idText \<lparr>PartialRequest.name = Some [], PartialRequest.email = em\<rparr>
       = (createError ''Name cannot be empty'', svc)"
    using sd by (simp add: updateUser_def validateName_def isNotEmpty_def createError_def logicalOr_def)
  have c2: "updateUser rt svc idText \<lparr>PartialRequest.name = None, PartialRequest.email = Some []\<rparr>
       = (createError ''Email cannot be empty'', svc)"
    using sd by (simp add: updateUser_def validateEmail_def isNotEmpty_def createError_def logicalOr_def)
  have c3: "n \<noteq> [] \<and> length n \<le> 50 \<longrightarrow>
        updateUser rt svc idText \<lparr>PartialRequest.name = Some n, PartialRequest.email = Some []\<rparr>
          = (createError ''Email cannot be empty'', svc)"
    using sd
    by (simp add: updateUser_def validateName_def validateEmail_def isNotEmpty_def createError_def
        createSuccess_def logicalOr_def)
  have c4: "(PartialRequest.name upd = None \<longrightarrow> IUser.name u' = IUser.name u) \<and>
        (PartialRequest.email upd = None \<longrightarrow> IUser.email u' = IUser.email u) \<and>
        id' u' = id' u \<and>
        getUserById rt svc' idText = createSuccess (Some u')"
    if upd: "updateUser rt svc idText upd = (createSuccess (Some u'), svc')"
  proof -
    from upd have "success (fst (updateUser rt svc idText upd)) \<or> snd (updateUser rt svc idText upd) \<noteq> svc"
      by (simp add: createSuccess_def)
    from updateUser_changes [OF this] obtain k1 u1 where
      k1: "toNumber rt (JString idText) = createSuccess (Some k1)"
      and u1: "Map_get (users svc) k1 = Some u1"
      and eq: "updateUser rt svc idText upd =
             (createSuccess (Some \<lparr>id' = id' u1,
                  IUser.name = logicalOr (PartialRequest.name upd) (IUser.name u1),
                  IUser.email = logicalOr (PartialRequest.email upd) (IUser.email u1)\<rparr>),
              svc\<lparr>users := Map_set (users svc) (id' u1)
                  \<lparr>id' = id' u1,
                   IUser.name = logicalOr (PartialRequest.name upd) (IUser.name u1),
                   IUser.email = logicalOr (PartialRequest.email upd) (IUser.email u1)\<rparr>\<rparr>)"
      by blast
    from k k1 have "k1 = k" by (simp add: createSuccess_inject)
    with u1 u0 uu have u1u: "u1 = u" by simp
    from eq upd u1u have u': "u' = \<lparr>id' = id' u,
                  IUser.name = logicalOr (PartialRequest.name upd) (IUser.name u),
                  IUser.email = logicalOr (PartialRequest.email upd) (IUser.email u)\<rparr>"
      and s': "svc' = svc\<lparr>users := Map_set (users svc) (id' u) u'\<rparr>"
      by (simp_all add: createSuccess_inject)
    have "getUserById rt svc' idText = createSuccess (Some u')"
      using k idk by (simp add: getUserById_def s' createSuccess_def Map_get_Map_set_same)
    with u' show ?thesis by (simp add: logicalOr_def)
  qed
  have c5: "fst (updateUser rt svc idText \<lparr>PartialRequest.name = None, PartialRequest.email = None\<rparr>)
       = createSuccess (Some u)"
  proof -
    have "\<lparr>id' = id' u, IUser.name = IUser.name u, IUser.email = IUser.email u\<rparr> = u"
      by (cases u) simp
    moreover have "fst (updateUser rt svc idText \<lparr>PartialRequest.name = None, PartialRequest.email = None\<rparr>)
       = createSuccess (Some \<lparr>id' = id' u, IUser.name = IUser.name u, IUser.email = IUser.email u\<rparr>)"
      using sd by (simp add: updateUser_def logicalOr_def Let_def)
    ultimately show ?thesis by (simp only:)
  qed
  from c1 c2 c3 c4 c5 show ?thesis by blast
qed

theorem updateUser_fields_witness:
  "oneUser = exec sample_runtime newUserService [CreateUser john] \<and>
   getUserById sample_runtime oneUser ''1'' = createSuccess (Some johnUser) \<and>
   updateUser sample_runtime oneUser ''1'' \<lparr>PartialRequest.name = Some [], PartialRequest.email = None\<rparr>
     = (createError ''Name cannot be empty'', oneUser) \<and>
   updateUser sample_runtime oneUser ''1'' \<lparr>PartialRequest.name = None, PartialRequest.email = Some []\<rparr>
     = (createError ''Email cannot be empty'', oneUser) \<and>
   updateUser sample_runtime oneUser ''1'' \<lparr>PartialRequest.name = Some ''Jane Doe'', PartialRequest.email = Some []\<rparr>
     = (createError ''Email cannot be empty'', oneUser) \<and>
   updateUser sample_runtime oneUser ''1'' \<lparr>PartialRequest.name = Some ''Jane Doe'', PartialRequest.email = None\<rparr>
     = (createSuccess (Some (johnUser\<lparr>IUser.name := ''Jane Doe''\<rparr>)),
        \<lparr>users = [(Finite 1, johnUser\<lparr>IUser.name := ''Jane Doe''\<rparr>)], nextId = 2\<rparr>) \<and>
   IUser.email (johnUser\<lparr>IUser.name := ''Jane Doe''\<rparr>) = IUser.email johnUser \<and>
   getUserById sample_runtime \<lparr>users = [(Finite 1, johnUser\<lparr>IUser.name := ''Jane Doe''\<rparr>)], nextId = 2\<rparr> ''1''
     = createSuccess (Some (johnUser\<lparr>IUser.name := ''Jane Doe''\<rparr>)) \<and>
   fst (updateUser sample_runtime oneUser ''1'' \<lparr>PartialRequest.name = None, PartialRequest.email = None\<rparr>)
     = createSuccess (Some johnUser)"
proof -
  note spec = updateUser_fields [OF exec_john [symmetric] getUserById_one]
  have a: "updateUser sample_runtime oneUser ''1'' \<lparr>PartialRequest.name = Some [], PartialRequest.email = None\<rparr>
     = (createError ''Name cannot be empty'', oneUser)"
    using spec [of None] by blast
  have b: "updateUser sample_runtime oneUser ''1'' \<lparr>PartialRequest.name = None, PartialRequest.email = Some []\<rparr>
     = (createError ''Email cannot be empty'', oneUser)"
    using spec by blast
  have c: "updateUser sample_runtime oneUser ''1'' \<lparr>PartialRequest.name = Some ''Jane Doe'', PartialRequest.email = Some []\<rparr>
     = (createError ''Email cannot be empty'', oneUser)"
    using spec [of _ "''Jane Doe''"] by simp
  have d: "updateUser sample_runtime oneUser ''1'' \<lparr>PartialRequest.name = Some ''Jane Doe'', PartialRequest.email = None\<rparr>
     = (createSuccess (Some (johnUser\<lparr>IUser.name := ''Jane Doe''\<rparr>)),
        \<lparr>users = [(Finite 1, johnUser\<lparr>IUser.name := ''Jane Doe''\<rparr>)], nextId = 2\<rparr>)"
    by (simp add: eval_defs sample_defs)
  have e: "IUser.email (johnUser\<lparr>IUser.name := ''Jane Doe''\<rparr>) = IUser.email johnUser \<and>
   getUserById sample_runtime \<lparr>users = [(Finite 1, johnUser\<lparr>IUser.name := ''Jane Doe''\<rparr>)], nextId = 2\<rparr> ''1''
     = createSuccess (Some (johnUser\<lparr>IUser.name := ''Jane Doe''\<rparr>))"
    using spec [of _ _ "\<lparr>PartialRequest.name = Some ''Jane Doe'', PartialRequest.email = None\<rparr>"
        "johnUser\<lparr>IUser.name := ''Jane Doe''\<rparr>"
        "\<lparr>users = [(Finite 1, johnUser\<lparr>IUser.name := ''Jane Doe''\<rparr>)], nextId = 2\<rparr>"] d
    by simp
  have f: "fst (updateUser sample_runtime oneUser ''1'' \<lparr>PartialRequest.name = None, PartialRequest.email = None\<rparr>)
     = createSuccess (Some johnUser)"
    using spec by blast
  from a b c d e f exec_john getUserById_one show ?thesis by simp
qed

text \<open>
  C4 as stated fails: after \<open>createUser(john)\<close>, \<open>updateUser("1", {name: ""})\<close> returns
  the Err \<open>Name cannot be empty\<close> and \<open>updateUser("1", {email: ""})\<close> returns the Err
  \<open>Email cannot be empty\<close>; the empty string is not ignored. \<open>updateUser\<close> tests the
  presence of a field with \<open>isNotUndefined\<close>, and the empty string is not \<open>undefined\<close>.
\<close>

theorem updateUser_empty_string_rejected:
  "getUserById sample_runtime (exec sample_runtime newUserService [CreateUser john]) ''1''
     = createSuccess (Some johnUser) \<and>
   updateUser sample_runtime (exec sample_runtime newUserService [CreateUser john]) ''1''
       \<lparr>PartialRequest.name = Some [], PartialRequest.email = None\<rparr>
     = (createError ''Name cannot be empty'', exec sample_runtime newUserService [CreateUser john]) \<and>
   updateUser sample_runtime (exec sample_runtime newUserService [CreateUser john]) ''1''
       \<lparr>PartialRequest.name = None, PartialRequest.email = Some []\<rparr>
     = (createError ''Email cannot be empty'', exec sample_runtime newUserService [CreateUser john])"
  by (simp add: eval_defs sample_defs)

end
